theory Spec2Isabelle
  imports Complex_Main
begin

section \<open>PPK2 recording analysis: the embedded program\<close>

text \<open>
  A shallow embedding of \<^verbatim>\<open>script/ppk_record_analysis.py\<close>.  Timestamps, latencies
  and the latency bound are Python floats in the source.  A float is read here as the real
  number it denotes, so there is neither an infinity nor a NaN among the values, and the
  order comparisons of floats are the comparisons of these reals.  The float operations
  that round are not computed here: they are parameters of the functions that use them,
  \<^item> \<open>fsub\<close>, the float subtraction of \<^verbatim>\<open>rx_time - tx_time\<close>, in the matcher and in the
    constructor of a measurement;
  \<^item> \<open>fsum\<close>, the builtin \<^verbatim>\<open>sum\<close> on a list of floats, and \<open>fdiv\<close>, the float division,
    in the report builder.

  Nothing is assumed of them except where a theorem says so.  Digital levels are the
  Python ints that \<^verbatim>\<open>int(row['D0'])\<close> produces.
\<close>

subsection \<open>Edge detector\<close>

text \<open>
  \<^verbatim>\<open>detect_rising_edges\<close> walks \<^verbatim>\<open>zip(timestamps, channel_data)\<close> with two
  variables, the list \<^verbatim>\<open>rising_edges\<close> and \<^verbatim>\<open>prev_value\<close> (initially 0).  The loop
  body is \<open>edge_body\<close>, the loop is \<open>edge_loop\<close>; the loop variable \<^verbatim>\<open>value\<close> is
  written \<open>val\<close>.  \<^verbatim>\<open>zip\<close> stops at the end of the shorter list.
\<close>

definition edge_body :: "real list \<times> int \<Rightarrow> real \<times> int \<Rightarrow> real list \<times> int" where
  "edge_body st sample =
     (case st of (rising_edges, prev_value) \<Rightarrow>
      case sample of (timestamp, val) \<Rightarrow>
        (if prev_value = 0 \<and> val = 1 then rising_edges @ [timestamp] else rising_edges,
         val))"

fun edge_loop :: "(real \<times> int) list \<Rightarrow> real list \<times> int \<Rightarrow> real list \<times> int" where
  "edge_loop [] st = st"
| "edge_loop (sample # rest) st = edge_loop rest (edge_body st sample)"

definition detect_rising_edges :: "real list \<Rightarrow> int list \<Rightarrow> real list" where
  "detect_rising_edges timestamps channel_data =
     fst (edge_loop (zip timestamps channel_data) ([], 0))"

text \<open>
  The specification's reading of an edge: a position where a maximal run of 1s begins, that
  is a sample at level 1 whose predecessor is not at level 1, the predecessor of the first
  sample being an implicit 0.
\<close>

definition run_starts :: "int list \<Rightarrow> nat list" where
  "run_starts levels =
     filter (\<lambda>i. levels ! i = 1 \<and> (0 # levels) ! i \<noteq> 1) [0..<length levels]"

text \<open>
  A maximal run of 1s occupies the positions \<open>i, \<dots>, j - 1\<close>: all of them are at level 1,
  the sample before \<open>i\<close> (the implicit 0 when \<open>i = 0\<close>) is not, and neither is the sample
  at \<open>j\<close> when there is one.  \<open>max_runs\<close> lists the maximal runs in order of their start.
\<close>

definition max_run :: "int list \<Rightarrow> nat \<Rightarrow> nat \<Rightarrow> bool" where
  "max_run levels i j \<longleftrightarrow>
     i < j \<and> j \<le> length levels \<and> (\<forall>k \<in> {i..<j}. levels ! k = 1) \<and>
     (0 # levels) ! i \<noteq> 1 \<and> (j = length levels \<or> levels ! j \<noteq> 1)"

definition max_runs :: "int list \<Rightarrow> (nat \<times> nat) list" where
  "max_runs levels =
     filter (\<lambda>(i, j). max_run levels i j)
       (List.product [0..<length levels] [0..<Suc (length levels)])"

subsection \<open>Trigger matcher\<close>

text \<open>
  The class \<^verbatim>\<open>LatencyMeasurement\<close>; its constructor computes the field \<open>latency\<close> by
  the float subtraction.
\<close>

record LatencyMeasurement =
  packet_num :: nat
  tx_time :: real
  rx_time :: real
  latency :: real

definition LatencyMeasurement_init ::
    "(real \<Rightarrow> real \<Rightarrow> real) \<Rightarrow> nat \<Rightarrow> real \<Rightarrow> real \<Rightarrow> LatencyMeasurement" where
  "LatencyMeasurement_init fsub pn tx rx =
     \<lparr>packet_num = pn, tx_time = tx, rx_time = rx, latency = fsub rx tx\<rparr>"

text \<open>
  What the program prints is kept as a list of lines; a line is named by the \<^verbatim>\<open>print\<close>
  call that writes it and carries the values that call formats:
  \<^item> \<open>Matching_line\<close>: \<^verbatim>\<open>Matching TX and RX triggers...\<close>
  \<^item> \<open>No_match_warning k t\<close>:
    \<^verbatim>\<open>Warning: No matching RX trigger found for TX trigger {k} at {t:.3f}ms\<close>
  \<^item> \<open>Matched_line n\<close>: \<^verbatim>\<open>Successfully matched {n} packet pairs\<close>
  \<^item> \<open>No_tx_error\<close>: \<^verbatim>\<open>Error: No TX triggers found in the data\<close>
  \<^item> \<open>No_rx_error\<close>: \<^verbatim>\<open>Error: No RX triggers found in the data\<close>
  \<^item> \<open>No_valid_error\<close>: \<^verbatim>\<open>Error: No valid latency measurements could be calculated\<close>
\<close>

datatype line =
    Matching_line
  | No_match_warning nat real
  | Matched_line nat
  | No_tx_error
  | No_rx_error
  | No_valid_error

text \<open>
  The three variables of the inner loop.  \<open>best_latency = None\<close> stands for
  \<^verbatim>\<open>float('inf')\<close>, which every latency that passed the bound test is below;
  \<open>best_match = None\<close> is Python's \<^verbatim>\<open>None\<close>; \<open>best_idx\<close> starts at \<open>-1\<close>.
  The loop variables \<^verbatim>\<open>tx_time\<close>, \<^verbatim>\<open>rx_time\<close> and \<^verbatim>\<open>latency\<close> are written
  \<open>tx_t\<close>, \<open>rx_t\<close> and \<open>lat\<close>, the full names being the record's fields.
\<close>

record best =
  best_match :: "real option"
  best_latency :: "real option"
  best_idx :: int

definition best_init :: best where
  "best_init = \<lparr>best_match = None, best_latency = None, best_idx = - 1\<rparr>"

definition scan_body ::
    "(real \<Rightarrow> real \<Rightarrow> real) \<Rightarrow> real \<Rightarrow> real \<Rightarrow> nat set \<Rightarrow> best \<Rightarrow> nat \<times> real \<Rightarrow> best" where
  "scan_body fsub tx_t max_latency_ms used b e =
     (case e of (i, rx_t) \<Rightarrow>
        if i \<in> used then b
        else if rx_t \<le> tx_t then b
        else
          (let lat = fsub rx_t tx_t in
           if lat > max_latency_ms then b
           else if (case best_latency b of None \<Rightarrow> True | Some bl \<Rightarrow> lat < bl)
             then \<lparr>best_match = Some rx_t, best_latency = Some lat, best_idx = int i\<rparr>
             else b))"

fun scan_loop ::
    "(real \<Rightarrow> real \<Rightarrow> real) \<Rightarrow> real \<Rightarrow> real \<Rightarrow> nat set \<Rightarrow> (nat \<times> real) list \<Rightarrow> best \<Rightarrow> best" where
  "scan_loop fsub tx_t max_latency_ms used [] b = b"
| "scan_loop fsub tx_t max_latency_ms used (e # rest) b =
     scan_loop fsub tx_t max_latency_ms used rest (scan_body fsub tx_t max_latency_ms used b e)"

text \<open>
  The outer loop's state: the list \<^verbatim>\<open>measurements\<close>, the set \<^verbatim>\<open>used_rx_indices\<close>
  and the lines printed so far.  \<open>best_idx\<close> is a position of \<^verbatim>\<open>rx_triggers\<close>
  whenever \<open>best_match\<close> is set (lemma \<open>scan_loop_some\<close>), so adding it to the set of
  positions goes through \<open>nat\<close>.
\<close>

record match_state =
  measurements :: "LatencyMeasurement list"
  used_rx_indices :: "nat set"
  stdout :: "line list"

definition match_body ::
    "(real \<Rightarrow> real \<Rightarrow> real) \<Rightarrow> real list \<Rightarrow> real \<Rightarrow> match_state \<Rightarrow> nat \<times> real \<Rightarrow> match_state" where
  "match_body fsub rx_triggers max_latency_ms s e =
     (case e of (pn, tx_t) \<Rightarrow>
        (let b = scan_loop fsub tx_t max_latency_ms (used_rx_indices s)
                   (enumerate 0 rx_triggers) best_init
         in case best_match b of
              Some m \<Rightarrow>
                s\<lparr>measurements := measurements s @ [LatencyMeasurement_init fsub pn tx_t m],
                  used_rx_indices := insert (nat (best_idx b)) (used_rx_indices s)\<rparr>
            | None \<Rightarrow> s\<lparr>stdout := stdout s @ [No_match_warning pn tx_t]\<rparr>))"

fun match_loop ::
    "(real \<Rightarrow> real \<Rightarrow> real) \<Rightarrow> real list \<Rightarrow> real \<Rightarrow> (nat \<times> real) list \<Rightarrow> match_state
       \<Rightarrow> match_state" where
  "match_loop fsub rx_triggers max_latency_ms [] s = s"
| "match_loop fsub rx_triggers max_latency_ms (e # rest) s =
     match_loop fsub rx_triggers max_latency_ms rest
       (match_body fsub rx_triggers max_latency_ms s e)"

definition match_init :: match_state where
  "match_init = \<lparr>measurements = [], used_rx_indices = {}, stdout = [Matching_line]\<rparr>"

text \<open>
  \<open>match_run\<close> is the whole body of \<^verbatim>\<open>match_triggers_and_calculate_latency\<close> with its
  final state; the function itself returns the measurements.
\<close>

definition match_run ::
    "(real \<Rightarrow> real \<Rightarrow> real) \<Rightarrow> real list \<Rightarrow> real list \<Rightarrow> real \<Rightarrow> match_state" where
  "match_run fsub tx_triggers rx_triggers max_latency_ms =
     (let s = match_loop fsub rx_triggers max_latency_ms (enumerate 0 tx_triggers) match_init
      in s\<lparr>stdout := stdout s @ [Matched_line (length (measurements s))]\<rparr>)"

definition match_triggers_and_calculate_latency ::
    "(real \<Rightarrow> real \<Rightarrow> real) \<Rightarrow> real list \<Rightarrow> real list \<Rightarrow> real \<Rightarrow> LatencyMeasurement list" where
  "match_triggers_and_calculate_latency fsub tx_triggers rx_triggers max_latency_ms =
     measurements (match_run fsub tx_triggers rx_triggers max_latency_ms)"

text \<open>
  The specification's words for one send event at time \<open>t_s\<close>, the difference
  \<open>t_r - t_s\<close> being the float difference \<open>fsub t_r t_s\<close> that the program computes:
  receive event \<open>i\<close> is eligible when it is not consumed, lies after \<open>t_s\<close> and its latency
  is within the bound; it is the nearest when no eligible event has a smaller latency and
  none with the same latency comes earlier in the scan.
\<close>

definition eligible ::
    "(real \<Rightarrow> real \<Rightarrow> real) \<Rightarrow> real list \<Rightarrow> real \<Rightarrow> nat set \<Rightarrow> real \<Rightarrow> nat \<Rightarrow> bool" where
  "eligible fsub rx max_latency consumed t_s i \<longleftrightarrow>
     i < length rx \<and> i \<notin> consumed \<and> rx ! i > t_s \<and> fsub (rx ! i) t_s \<le> max_latency"

definition nearest ::
    "(real \<Rightarrow> real \<Rightarrow> real) \<Rightarrow> real list \<Rightarrow> real \<Rightarrow> nat set \<Rightarrow> real \<Rightarrow> nat \<Rightarrow> bool" where
  "nearest fsub rx max_latency consumed t_s i \<longleftrightarrow>
     eligible fsub rx max_latency consumed t_s i \<and>
     (\<forall>j \<in> {0..<length rx}. eligible fsub rx max_latency consumed t_s j \<longrightarrow>
        fsub (rx ! i) t_s \<le> fsub (rx ! j) t_s \<and>
        (fsub (rx ! j) t_s = fsub (rx ! i) t_s \<longrightarrow> i \<le> j))"

subsection \<open>Report builder\<close>

text \<open>
  Python exceptions that the statistics can raise: \<^verbatim>\<open>sum(xs) / len(xs)\<close> raises
  \<^verbatim>\<open>ZeroDivisionError\<close> when \<^verbatim>\<open>len(xs)\<close> is 0, and \<^verbatim>\<open>min\<close> and \<^verbatim>\<open>max\<close> raise
  \<^verbatim>\<open>ValueError\<close> on an empty list.  The sum of the latencies is \<open>fsum latencies\<close>,
  whatever the builtin returns for that list of floats.  The division converts the length
  to a float, which is exact for every length a list can have, and divides by \<open>fdiv\<close>.
  \<^verbatim>\<open>min\<close> and \<^verbatim>\<open>max\<close> only compare: they walk the list from the left and keep one of
  its elements.
\<close>

datatype py_error = ZeroDivisionError | ValueError

definition py_truediv :: "(real \<Rightarrow> real \<Rightarrow> real) \<Rightarrow> real \<Rightarrow> nat \<Rightarrow> py_error + real" where
  "py_truediv fdiv a n = (if n = 0 then Inl ZeroDivisionError else Inr (fdiv a (real n)))"

fun min_loop :: "real list \<Rightarrow> real \<Rightarrow> real" where
  "min_loop [] cur = cur"
| "min_loop (x # xs) cur = min_loop xs (if x < cur then x else cur)"

definition py_min :: "real list \<Rightarrow> py_error + real" where
  "py_min xs = (case xs of [] \<Rightarrow> Inl ValueError | x # rest \<Rightarrow> Inr (min_loop rest x))"

fun max_loop :: "real list \<Rightarrow> real \<Rightarrow> real" where
  "max_loop [] cur = cur"
| "max_loop (x # xs) cur = max_loop xs (if x > cur then x else cur)"

definition py_max :: "real list \<Rightarrow> py_error + real" where
  "py_max xs = (case xs of [] \<Rightarrow> Inl ValueError | x # rest \<Rightarrow> Inr (max_loop rest x))"

text \<open>
  The report is a string.  Python's number formatting is not part of the program: the
  three formats it uses are parameters, \<open>fd\<close> for an integer in braces, \<open>f3\<close> for
  \<^verbatim>\<open>:.3f\<close> and \<open>f2\<close> for \<^verbatim>\<open>:.2f\<close>.  \<open>nl\<close> is the line feed.
\<close>

definition nl :: string where
  "nl = [CHR 0x0A]"

definition table_row :: "(nat \<Rightarrow> string) \<Rightarrow> (real \<Rightarrow> string) \<Rightarrow> LatencyMeasurement \<Rightarrow> string" where
  "table_row fd f2 x =
     ''| '' @ fd (packet_num x) @ '' | '' @ f2 (tx_time x) @ '' | '' @ f2 (rx_time x)
       @ '' | '' @ f2 (latency x) @ '' |'' @ nl"

fun rows_loop ::
    "(nat \<Rightarrow> string) \<Rightarrow> (real \<Rightarrow> string) \<Rightarrow> LatencyMeasurement list \<Rightarrow> string \<Rightarrow> string" where
  "rows_loop fd f2 [] table = table"
| "rows_loop fd f2 (x # rest) table = rows_loop fd f2 rest (table @ table_row fd f2 x)"

definition generate_markdown_table ::
    "(real list \<Rightarrow> real) \<Rightarrow> (real \<Rightarrow> real \<Rightarrow> real) \<Rightarrow>
     (nat \<Rightarrow> string) \<Rightarrow> (real \<Rightarrow> string) \<Rightarrow> (real \<Rightarrow> string) \<Rightarrow> LatencyMeasurement list
       \<Rightarrow> py_error + string" where
  "generate_markdown_table fsum fdiv fd f3 f2 ms =
     (if ms = [] then Inr ''No measurements available.''
      else
        (let latencies = map latency ms in
         case py_truediv fdiv (fsum latencies) (length latencies) of
           Inl e \<Rightarrow> Inl e
         | Inr avg_latency \<Rightarrow>
         (case py_min latencies of
           Inl e \<Rightarrow> Inl e
         | Inr min_latency \<Rightarrow>
         (case py_max latencies of
           Inl e \<Rightarrow> Inl e
         | Inr max_latency \<Rightarrow>
         (let table = ''## UDP Latency Analysis Results'' @ nl @ nl;
              table = table @ ''**Summary Statistics:**'' @ nl;
              table = table @ ''- Total Packets: '' @ fd (length ms) @ nl;
              table = table @ ''- Average Latency: '' @ f3 avg_latency @ '' ms'' @ nl;
              table = table @ ''- Minimum Latency: '' @ f3 min_latency @ '' ms'' @ nl;
              table = table @ ''- Maximum Latency: '' @ f3 max_latency @ '' ms'' @ nl @ nl;
              table = table @
                ''| Packet Number | TX Trigger Time (ms) | RX Trigger Time (ms) | Latency (ms) |'' @ nl;
              table = table @
                ''|---------------|---------------------|---------------------|-------------|'' @ nl;
              table = rows_loop fd f2 ms table;
              table = table @
                ''|---------------|---------------------|---------------------|-------------|'' @ nl;
              table = table @ ''| **Average** | - | - | **'' @ f2 avg_latency @ ''** |'' @ nl;
              table = table @ ''| **Minimum** | - | - | **'' @ f2 min_latency @ ''** |'' @ nl;
              table = table @ ''| **Maximum** | - | - | **'' @ f2 max_latency @ ''** |'' @ nl
          in Inr table)))))"

text \<open>
  The parts of a report in the specification's words: the summary block of the four
  statistics, the table head, and the closing rows that restate mean, minimum and maximum.
\<close>

definition summary_block ::
    "(nat \<Rightarrow> string) \<Rightarrow> (real \<Rightarrow> string) \<Rightarrow> nat \<Rightarrow> real \<Rightarrow> real \<Rightarrow> real \<Rightarrow> string" where
  "summary_block fd f3 cnt mean lo hi =
     ''## UDP Latency Analysis Results'' @ nl @ nl @
     ''**Summary Statistics:**'' @ nl @
     ''- Total Packets: '' @ fd cnt @ nl @
     ''- Average Latency: '' @ f3 mean @ '' ms'' @ nl @
     ''- Minimum Latency: '' @ f3 lo @ '' ms'' @ nl @
     ''- Maximum Latency: '' @ f3 hi @ '' ms'' @ nl @ nl"

definition table_rule :: string where
  "table_rule =
     ''|---------------|---------------------|---------------------|-------------|'' @ nl"

definition table_head :: string where
  "table_head =
     ''| Packet Number | TX Trigger Time (ms) | RX Trigger Time (ms) | Latency (ms) |'' @ nl
       @ table_rule"

definition summary_rows :: "(real \<Rightarrow> string) \<Rightarrow> real \<Rightarrow> real \<Rightarrow> real \<Rightarrow> string" where
  "summary_rows f2 mean lo hi =
     table_rule @
     ''| **Average** | - | - | **'' @ f2 mean @ ''** |'' @ nl @
     ''| **Minimum** | - | - | **'' @ f2 lo @ ''** |'' @ nl @
     ''| **Maximum** | - | - | **'' @ f2 hi @ ''** |'' @ nl"

subsection \<open>The pipeline after parsing\<close>

text \<open>
  \<^verbatim>\<open>main\<close> from the point where \<^verbatim>\<open>parse_csv_file\<close> has returned the two trigger lists
  up to the call of \<^verbatim>\<open>generate_markdown_table\<close>.  \<^verbatim>\<open>sys.exit(1)\<close> ends the run with
  \<open>SystemExit 1\<close>, after the \<^verbatim>\<open>print\<close> that says why; an exception that nothing
  catches is \<open>Uncaught\<close>.  The result pairs the lines printed with the way the run ended
  or the report text.
\<close>

datatype fatal = SystemExit nat | Uncaught py_error

definition main_after_parse ::
    "(real \<Rightarrow> real \<Rightarrow> real) \<Rightarrow> (real list \<Rightarrow> real) \<Rightarrow> (real \<Rightarrow> real \<Rightarrow> real) \<Rightarrow>
     (nat \<Rightarrow> string) \<Rightarrow> (real \<Rightarrow> string) \<Rightarrow> (real \<Rightarrow> string) \<Rightarrow> real list \<Rightarrow> real list \<Rightarrow> real
       \<Rightarrow> line list \<times> (fatal + string)" where
  "main_after_parse fsub fsum fdiv fd f3 f2 tx_triggers rx_triggers max_latency =
     (if tx_triggers = [] then ([No_tx_error], Inl (SystemExit 1))
      else if rx_triggers = [] then ([No_rx_error], Inl (SystemExit 1))
      else
        (let s = match_run fsub tx_triggers rx_triggers max_latency;
             ms = measurements s
         in if ms = [] then (stdout s @ [No_valid_error], Inl (SystemExit 1))
            else
              (case generate_markdown_table fsum fdiv fd f3 f2 ms of
                 Inl e \<Rightarrow> (stdout s, Inl (Uncaught e))
               | Inr markdown_table \<Rightarrow> (stdout s, Inr markdown_table))))"

subsection \<open>Float operations and formatters of the worked examples\<close>

text \<open>
  The worked examples run the program on concrete values, so they need the float
  operations there.  On the small integers and halves of the examples Python's results are
  the exact ones.  Three differences that round are listed with their operands, which are
  doubles written as fractions:
  \<^item> \<^verbatim>\<open>300.1 - 0.1\<close> is \<^verbatim>\<open>300.0\<close>, where \<^verbatim>\<open>300.1\<close> is \<open>2639707515964621 / 2^43\<close> and
    \<^verbatim>\<open>0.1\<close> is \<open>3602879701896397 / 2^55\<close> (the exact difference is above 300);
  \<^item> \<^verbatim>\<open>1.0 - (-2.0**53)\<close> is \<^verbatim>\<open>2.0**53\<close>;
  \<^item> \<^verbatim>\<open>0.012 - 0.001\<close> is the double \<^verbatim>\<open>0.011\<close>, \<open>3170534137668829 / 2^58\<close>, where
    \<^verbatim>\<open>0.012\<close> is \<open>3458764513820541 / 2^58\<close> and \<^verbatim>\<open>0.001\<close> is
    \<open>1152921504606847 / 2^60\<close> (the exact difference is above \<^verbatim>\<open>0.011\<close>).

  The sum \<^verbatim>\<open>sum([2.0**53, 1.0])\<close> is \<^verbatim>\<open>2.0**53\<close>.
\<close>

definition example_fsub :: "real \<Rightarrow> real \<Rightarrow> real" where
  "example_fsub a b =
     (if a = 2639707515964621 / 8796093022208 \<and> b = 3602879701896397 / 36028797018963968
        then 300
      else if a = 1 \<and> b = - 9007199254740992 then 9007199254740992
      else if a = 3458764513820541 / 288230376151711744
                \<and> b = 1152921504606847 / 1152921504606846976
        then 3170534137668829 / 288230376151711744
      else a - b)"

definition example_fsum :: "real list \<Rightarrow> real" where
  "example_fsum xs = (if xs = [9007199254740992, 1] then 9007199254740992 else sum_list xs)"

definition example_fdiv :: "real \<Rightarrow> real \<Rightarrow> real" where
  "example_fdiv a b = a / b"

text \<open>
  Formatters for the worked examples: they print the numbers that occur there the way
  Python does and anything else as a placeholder.
\<close>

definition example_fd :: "nat \<Rightarrow> string" where
  "example_fd n = (if n = 0 then ''0'' else if n = 1 then ''1'' else if n = 2 then ''2'' else ''n'')"

definition example_f3 :: "real \<Rightarrow> string" where
  "example_f3 x = (if x = 2 then ''2.000'' else if x = 5 / 2 then ''2.500''
                   else if x = 3 then ''3.000'' else ''x'')"

definition example_f2 :: "real \<Rightarrow> string" where
  "example_f2 x = (if x = 0 then ''0.00'' else if x = 2 then ''2.00'' else if x = 5 / 2 then ''2.50''
                   else if x = 3 then ''3.00'' else if x = 10 then ''10.00''
                   else if x = 13 then ''13.00'' else ''x'')"

subsection \<open>Invariants used in the proofs\<close>

text \<open>
  After the inner loop has seen the first \<open>k\<close> receive events, its variables hold the
  nearest eligible event among them, or their initial values when there is none.
\<close>

definition scan_inv ::
    "(real \<Rightarrow> real \<Rightarrow> real) \<Rightarrow> real list \<Rightarrow> real \<Rightarrow> nat set \<Rightarrow> real \<Rightarrow> nat \<Rightarrow> best \<Rightarrow> bool" where
  "scan_inv fsub rx m u t k b \<longleftrightarrow>
     (if \<exists>j<k. eligible fsub rx m u t j
      then \<exists>i<k. eligible fsub rx m u t i \<and>
             (\<forall>j<k. eligible fsub rx m u t j \<longrightarrow>
                fsub (rx ! i) t \<le> fsub (rx ! j) t \<and>
                (fsub (rx ! j) t = fsub (rx ! i) t \<longrightarrow> i \<le> j)) \<and>
             b = \<lparr>best_match = Some (rx ! i), best_latency = Some (fsub (rx ! i) t),
                  best_idx = int i\<rparr>
      else b = best_init)"

text \<open>
  The state of the outer loop after the send events \<open>tx\<close>: the consumed positions, in the
  order they were consumed, are distinct and pair up with the measurements; every
  measurement carries its send event's index and times within the constraints; the packet
  numbers increase.
\<close>

definition match_inv ::
    "(real \<Rightarrow> real \<Rightarrow> real) \<Rightarrow> real list \<Rightarrow> real list \<Rightarrow> real \<Rightarrow> match_state \<Rightarrow> bool" where
  "match_inv fsub tx rx m s \<longleftrightarrow>
     (\<exists>is. length is = length (measurements s) \<and> distinct is \<and> set is = used_rx_indices s \<and>
           set is \<subseteq> {..<length rx} \<and> map rx_time (measurements s) = map (\<lambda>i. rx ! i) is) \<and>
     (\<forall>x \<in> set (measurements s).
        packet_num x < length tx \<and> tx_time x = tx ! packet_num x \<and>
        latency x = fsub (rx_time x) (tx_time x) \<and> tx_time x < rx_time x \<and>
        fsub (rx_time x) (tx_time x) \<le> m) \<and>
     sorted_wrt (<) (map packet_num (measurements s))"

section \<open>Properties\<close>

subsection \<open>Facts about the edge detector\<close>

lemma map_nth_filter_Suc:
  "map (\<lambda>i. (t # ts) ! i) (filter P (map Suc xs)) = map (\<lambda>i. ts ! i) (filter (\<lambda>i. P (Suc i)) xs)"
  by (induction xs) auto

lemma edge_loop_acc:
  "fst (edge_loop (zip ts lv) (acc, prev)) =
     acc @ map (\<lambda>i. ts ! i)
        (filter (\<lambda>i. lv ! i = 1 \<and> (prev # lv) ! i = 0) [0..<min (length ts) (length lv)])"
proof (induction ts arbitrary: lv acc prev)
  case Nil
  show ?case by simp
next
  case (Cons t ts)
  show ?case
  proof (cases lv)
    case Nil
    then show ?thesis by simp
  next
    case lv: (Cons l ls)
    let ?n = "min (length ts) (length ls)"
    have upt: "[0..<Suc ?n] = 0 # map Suc [0..<?n]"
      by (simp add: upt_conv_Cons map_Suc_upt del: upt_Suc)
    have "fst (edge_loop (zip (t # ts) lv) (acc, prev))
          = fst (edge_loop (zip ts ls) (if prev = 0 \<and> l = 1 then acc @ [t] else acc, l))"
      by (simp add: lv edge_body_def)
    also have "\<dots> = (if prev = 0 \<and> l = 1 then acc @ [t] else acc) @
         map (\<lambda>i. ts ! i) (filter (\<lambda>i. ls ! i = 1 \<and> (l # ls) ! i = 0) [0..<?n])"
      by (rule Cons.IH)
    also have "\<dots> = acc @ map (\<lambda>i. (t # ts) ! i)
         (filter (\<lambda>i. (l # ls) ! i = 1 \<and> (prev # l # ls) ! i = 0) [0..<Suc ?n])"
      unfolding upt by (simp add: map_nth_filter_Suc del: upt_Suc)
    finally show ?thesis by (simp add: lv del: upt_Suc)
  qed
qed

lemma detect_rising_edges_run_starts:
  assumes "length timestamps = length levels" "set levels \<subseteq> {0, 1}"
  shows "detect_rising_edges timestamps levels = map (\<lambda>i. timestamps ! i) (run_starts levels)"
proof -
  have "\<And>i. i < length levels \<Longrightarrow> (0 # levels) ! i = 0 \<or> (0 # levels) ! i = 1"
    using assms(2) by (case_tac i) (auto simp: subset_iff)
  then have "filter (\<lambda>i. levels ! i = 1 \<and> (0 # levels) ! i = 0) [0..<length levels]
           = filter (\<lambda>i. levels ! i = 1 \<and> (0 # levels) ! i \<noteq> 1) [0..<length levels]"
    by (intro filter_cong) auto
  then show ?thesis
    using assms(1) by (simp add: detect_rising_edges_def edge_loop_acc run_starts_def)
qed

lemma max_run_unique: "max_run lv i j \<Longrightarrow> max_run lv i j' \<Longrightarrow> j = j'"
proof (rule ccontr)
  assume a: "max_run lv i j" and b: "max_run lv i j'" and ne: "j \<noteq> j'"
  { fix p q assume pq: "max_run lv i p" "max_run lv i q" "p < q"
    then have "p \<noteq> length lv" by (auto simp: max_run_def)
    with pq(1) have "lv ! p \<noteq> 1" by (auto simp: max_run_def)
    moreover from pq have "p \<in> {i..<q}" by (auto simp: max_run_def)
    with pq(2) have "lv ! p = 1" unfolding max_run_def by blast
    ultimately have False by simp }
  then show False using a b ne by (metis nat_neq_iff)
qed

lemma max_run_exists:
  assumes "i < length lv" "lv ! i = 1" "(0 # lv) ! i \<noteq> 1"
  shows "\<exists>j. max_run lv i j"
proof -
  define Q where "Q k \<longleftrightarrow> i < k \<and> (k = length lv \<or> lv ! k \<noteq> 1)" for k
  have Qn: "Q (length lv)" using assms(1) by (simp add: Q_def)
  define j where "j = (LEAST k. Q k)"
  have Qj: "Q j" unfolding j_def using Qn by (rule LeastI)
  have jle: "j \<le> length lv" unfolding j_def using Qn by (rule Least_le)
  have "lv ! k = 1" if "k \<in> {i..<j}" for k
  proof (cases "k = i")
    case True then show ?thesis using assms(2) by simp
  next
    case False
    with that have "i < k" "k < j" by auto
    from \<open>k < j\<close> have "\<not> Q k" unfolding j_def by (rule not_less_Least)
    with \<open>i < k\<close> show ?thesis by (simp add: Q_def)
  qed
  with Qj jle assms(3) have "max_run lv i j" by (auto simp: max_run_def Q_def)
  then show ?thesis ..
qed

lemma set_max_runs: "set (max_runs lv) = {(i, j). max_run lv i j}"
  by (auto simp: max_runs_def max_run_def)

lemma fst_set_max_runs: "fst ` set (max_runs lv) = set (run_starts lv)"
proof (intro equalityI subsetI)
  fix i assume "i \<in> fst ` set (max_runs lv)"
  then obtain j where "max_run lv i j" by (auto simp: set_max_runs)
  then show "i \<in> set (run_starts lv)" by (auto simp: run_starts_def max_run_def)
next
  fix i assume "i \<in> set (run_starts lv)"
  then have "\<exists>j. max_run lv i j" by (intro max_run_exists) (auto simp: run_starts_def)
  then show "i \<in> fst ` set (max_runs lv)" by (force simp: set_max_runs)
qed

lemma sorted_map_const: "sorted (map (\<lambda>x. a) ys)"
  by (induction ys) auto

lemma sorted_fst_product: "sorted xs \<Longrightarrow> sorted (map fst (List.product xs ys))"
  by (induction xs) (auto simp: sorted_append comp_def sorted_map_const)

lemma map_fst_max_runs: "map fst (max_runs lv) = run_starts lv"
proof (rule sorted_distinct_set_unique)
  show "sorted (map fst (max_runs lv))"
    unfolding max_runs_def by (intro sorted_filter sorted_fst_product) simp
  have "inj_on fst (set (max_runs lv))"
    by (auto simp: inj_on_def set_max_runs dest: max_run_unique)
  moreover have "distinct (max_runs lv)"
    by (simp add: max_runs_def distinct_product)
  ultimately show "distinct (map fst (max_runs lv))" by (simp add: distinct_map)
  show "sorted (run_starts lv)" unfolding run_starts_def by (rule sorted_wrt_filter) simp
  show "distinct (run_starts lv)" by (simp add: run_starts_def)
  show "set (map fst (max_runs lv)) = set (run_starts lv)" by (simp add: fst_set_max_runs)
qed

text \<open>
  Claim C3.  For every sequence of levels in \<open>{0, 1}\<close> with its timestamps, the detector
  emits one edge per maximal run of 1s (the sample before the first one counting as 0), in
  order, and the edge's timestamp is that of the first sample of the run; so the number of
  edges is the number of maximal runs.  Levels \<open>[0,0,1,1,0,1]\<close> at timestamps
  \<open>[0,1,2,3,4,5]\<close> give the edges \<open>[2,5]\<close>.
\<close>

theorem edge_detection_correct:
  assumes "length timestamps = length levels" "set levels \<subseteq> {0, 1}"
  shows "detect_rising_edges timestamps levels = map (\<lambda>(i, j). timestamps ! i) (max_runs levels)
       \<and> length (detect_rising_edges timestamps levels) = length (max_runs levels)
       \<and> detect_rising_edges [0, 1, 2, 3, 4, 5] [0, 0, 1, 1, 0, 1] = [2, 5]"
proof -
  have "map (\<lambda>(i, j). timestamps ! i) (max_runs levels)
        = map (\<lambda>i. timestamps ! i) (map fst (max_runs levels))"
    by (simp add: case_prod_unfold comp_def)
  then have eq: "detect_rising_edges timestamps levels
        = map (\<lambda>(i, j). timestamps ! i) (max_runs levels)"
    using assms by (simp only: map_fst_max_runs detect_rising_edges_run_starts)
  have "detect_rising_edges [0, 1, 2, 3, 4, 5] [0, 0, 1, 1, 0, 1] = [2, 5]"
    by (simp add: detect_rising_edges_def edge_body_def)
  with eq show ?thesis by simp
qed

theorem edge_detection_correct_witness:
  "length [0, 1, 2, 3, 4, 5 :: real] = length [0, 0, 1, 1, 0, 1 :: int]
   \<and> set [0, 0, 1, 1, 0, 1 :: int] \<subseteq> {0, 1}
   \<and> max_runs [0, 0, 1, 1, 0, 1] = [(2, 4), (5, 6)]
   \<and> detect_rising_edges [0, 1, 2, 3, 4, 5] [0, 0, 1, 1, 0, 1] = [2, 5]"
proof -
  have r: "max_runs [0, 0, 1, 1, 0, 1] = [(2, 4), (5, 6)]" by code_simp
  show ?thesis
    using edge_detection_correct [of "[0, 1, 2, 3, 4, 5]" "[0, 0, 1, 1, 0, 1]"]
    by (simp add: r)
qed

text \<open>
  Claim C4, as stated, fails: the previous level starts at 0, so a channel that is at
  level 1 in its first sample does produce an edge there.  On levels \<open>[1,1,1]\<close> at
  timestamps \<open>[0,1,2]\<close> the detector returns the edge \<open>[0]\<close>.
\<close>

theorem first_sample_edge_counterexample:
  "detect_rising_edges [0, 1, 2] [1, 1, 1] = [0]"
  by (simp add: detect_rising_edges_def edge_body_def)

text \<open>
  Claim C4, amended.  For every sample sequence whose first sample has level 1, the first
  edge the detector emits is at that first sample's timestamp.
\<close>

theorem first_sample_at_level_one_is_edge:
  "\<exists>later. detect_rising_edges (t # timestamps) (1 # levels) = t # later"
  by (simp add: detect_rising_edges_def edge_body_def edge_loop_acc)

subsection \<open>Facts about the trigger matcher\<close>

lemma scan_loop_append:
  "scan_loop fsub t m u (xs @ ys) b = scan_loop fsub t m u ys (scan_loop fsub t m u xs b)"
  by (induction xs arbitrary: b) auto

lemma match_loop_append:
  "match_loop fsub rx m (xs @ ys) s = match_loop fsub rx m ys (match_loop fsub rx m xs s)"
  by (induction xs arbitrary: s) auto

lemma scan_inv_step:
  assumes "scan_inv fsub rx m u t k b" "k < length rx"
  shows "scan_inv fsub rx m u t (Suc k) (scan_body fsub t m u b (k, rx ! k))"
proof (cases "\<exists>j<k. eligible fsub rx m u t j")
  case False
  then have b: "b = best_init" using assms(1) by (simp add: scan_inv_def)
  show ?thesis
  proof (cases "eligible fsub rx m u t k")
    case True
    then have "scan_body fsub t m u b (k, rx ! k) =
      \<lparr>best_match = Some (rx ! k), best_latency = Some (fsub (rx ! k) t), best_idx = int k\<rparr>"
      by (auto simp: scan_body_def eligible_def b best_init_def Let_def)
    moreover have "\<forall>j<Suc k. eligible fsub rx m u t j \<longrightarrow> j = k"
      using False by (auto simp: less_Suc_eq)
    ultimately show ?thesis using True unfolding scan_inv_def by auto
  next
    case nk: False
    then have "scan_body fsub t m u b (k, rx ! k) = b"
      using assms(2) by (auto simp: scan_body_def eligible_def Let_def)
    moreover have "\<not> (\<exists>j<Suc k. eligible fsub rx m u t j)"
      using False nk by (auto simp: less_Suc_eq)
    ultimately show ?thesis using b unfolding scan_inv_def by auto
  qed
next
  case True
  then obtain i where i: "i < k" "eligible fsub rx m u t i"
      "\<forall>j<k. eligible fsub rx m u t j \<longrightarrow> fsub (rx ! i) t \<le> fsub (rx ! j) t \<and> (fsub (rx ! j) t = fsub (rx ! i) t \<longrightarrow> i \<le> j)"
      "b = \<lparr>best_match = Some (rx ! i), best_latency = Some (fsub (rx ! i) t), best_idx = int i\<rparr>"
    using assms(1) unfolding scan_inv_def by auto
  have ex: "\<exists>j<Suc k. eligible fsub rx m u t j" using True by (auto simp: less_Suc_eq)
  show ?thesis
  proof (cases "eligible fsub rx m u t k \<and> fsub (rx ! k) t < fsub (rx ! i) t")
    case True
    then have "scan_body fsub t m u b (k, rx ! k) =
      \<lparr>best_match = Some (rx ! k), best_latency = Some (fsub (rx ! k) t), best_idx = int k\<rparr>"
      by (auto simp: scan_body_def eligible_def i(4) Let_def)
    moreover have "\<forall>j<Suc k. eligible fsub rx m u t j \<longrightarrow>
        fsub (rx ! k) t \<le> fsub (rx ! j) t \<and> (fsub (rx ! j) t = fsub (rx ! k) t \<longrightarrow> k \<le> j)"
      using True i(3) by (fastforce simp: less_Suc_eq)
    ultimately show ?thesis using True ex unfolding scan_inv_def by auto
  next
    case False
    then have "scan_body fsub t m u b (k, rx ! k) = b"
      using assms(2) by (auto simp: scan_body_def eligible_def i(4) Let_def)
    moreover have "\<forall>j<Suc k. eligible fsub rx m u t j \<longrightarrow>
        fsub (rx ! i) t \<le> fsub (rx ! j) t \<and> (fsub (rx ! j) t = fsub (rx ! i) t \<longrightarrow> i \<le> j)"
      using False i(1,3) by (fastforce simp: less_Suc_eq)
    ultimately show ?thesis using i(1,2,4) ex unfolding scan_inv_def
      by (auto simp: less_Suc_eq)
  qed
qed

lemma scan_inv_prefix:
  "k \<le> length rx \<Longrightarrow> scan_inv fsub rx m u t k (scan_loop fsub t m u (enumerate 0 (take k rx)) best_init)"
proof (induction k)
  case 0
  show ?case by (simp add: scan_inv_def)
next
  case (Suc k)
  then have k: "k < length rx" by simp
  have "enumerate 0 (take (Suc k) rx) = enumerate 0 (take k rx) @ [(k, rx ! k)]"
    using k by (simp add: take_Suc_conv_app_nth enumerate_append_eq min_def)
  then show ?case using Suc.IH k scan_inv_step [OF _ k]
    by (simp add: scan_loop_append)
qed

lemma scan_loop_none:
  assumes "\<not> (\<exists>i. eligible fsub rx m u t i)"
  shows "scan_loop fsub t m u (enumerate 0 rx) best_init = best_init"
  using scan_inv_prefix [of "length rx" rx fsub m u t] assms by (simp add: scan_inv_def)

lemma scan_loop_some:
  assumes "\<exists>i. eligible fsub rx m u t i"
  shows "\<exists>i. nearest fsub rx m u t i \<and> scan_loop fsub t m u (enumerate 0 rx) best_init =
           \<lparr>best_match = Some (rx ! i), best_latency = Some (fsub (rx ! i) t), best_idx = int i\<rparr>"
proof -
  from assms have "\<exists>j<length rx. eligible fsub rx m u t j" by (auto simp: eligible_def)
  with scan_inv_prefix [of "length rx" rx fsub m u t] show ?thesis
    unfolding scan_inv_def nearest_def by (simp add: Ball_def) blast
qed

lemma nearest_unique: "nearest fsub rx m u t i \<Longrightarrow> nearest fsub rx m u t j \<Longrightarrow> i = j"
  unfolding nearest_def eligible_def by (metis atLeastLessThan_iff le_antisym order_antisym zero_le)

lemma nearest_eligible: "nearest fsub rx m u t i \<Longrightarrow> eligible fsub rx m u t i"
  by (simp add: nearest_def)

lemma match_body_none:
  assumes "\<not> (\<exists>i. eligible fsub rx m (used_rx_indices s) t i)"
  shows "match_body fsub rx m s (k, t) = s\<lparr>stdout := stdout s @ [No_match_warning k t]\<rparr>"
  using scan_loop_none [OF assms] by (simp add: match_body_def best_init_def)

lemma match_body_some:
  assumes "\<exists>i. eligible fsub rx m (used_rx_indices s) t i"
  shows "\<exists>i. nearest fsub rx m (used_rx_indices s) t i \<and>
           match_body fsub rx m s (k, t) =
             s\<lparr>measurements := measurements s @ [LatencyMeasurement_init fsub k t (rx ! i)],
               used_rx_indices := insert i (used_rx_indices s)\<rparr>"
proof -
  from scan_loop_some [OF assms] obtain i where
    "nearest fsub rx m (used_rx_indices s) t i"
    "scan_loop fsub t m (used_rx_indices s) (enumerate 0 rx) best_init =
       \<lparr>best_match = Some (rx ! i), best_latency = Some (fsub (rx ! i) t), best_idx = int i\<rparr>"
    by blast
  then show ?thesis by (auto simp: match_body_def)
qed

lemma enumerate_snoc: "enumerate 0 (xs @ [x]) = enumerate 0 xs @ [(length xs, x)]"
  by (simp add: enumerate_append_eq)

lemma match_loop_snoc:
  "match_loop fsub rx m (enumerate 0 (tx @ [t])) s =
     match_body fsub rx m (match_loop fsub rx m (enumerate 0 tx) s) (length tx, t)"
  by (simp add: enumerate_snoc match_loop_append)

lemmas matcher_eval =
  match_triggers_and_calculate_latency_def match_run_def match_init_def match_body_def
  scan_body_def best_init_def LatencyMeasurement_init_def example_fsub_def Let_def

lemma match_run_fields:
  "measurements (match_run fsub tx rx m) = measurements (match_loop fsub rx m (enumerate 0 tx) match_init)"
  "used_rx_indices (match_run fsub tx rx m) = used_rx_indices (match_loop fsub rx m (enumerate 0 tx) match_init)"
  by (simp_all add: match_run_def Let_def)

text \<open>
  Claim C1.  With no send events the matcher returns no measurement and consumes nothing.
  It handles the send events in their order: what it has produced after \<open>tx @ [t_s]\<close> is
  what it had produced after \<open>tx\<close>, extended by the outcome for \<open>t_s\<close>, whose index is
  \<open>length tx\<close>.  For \<open>t_s\<close> it considers exactly the receive events that are not yet
  consumed, later than \<open>t_s\<close> and whose latency, the float difference the program
  computes, is at most \<open>max_latency\<close>.  If there is one, it appends the measurement for the
  one of smallest latency, the earliest in the scan among equals, with the fields written
  out below, and marks that one consumed; none of the eligible events has a smaller
  latency.  If there is none, measurements and consumed set stay as they were.  This holds
  for every \<open>max_latency\<close>, positive or not.
\<close>

theorem greedy_nearest_matching:
  "match_triggers_and_calculate_latency fsub [] rx max_latency = []
   \<and> used_rx_indices (match_run fsub [] rx max_latency) = {}
   \<and> (let consumed = used_rx_indices (match_run fsub tx rx max_latency);
           before = match_triggers_and_calculate_latency fsub tx rx max_latency;
           after = match_triggers_and_calculate_latency fsub (tx @ [t_s]) rx max_latency;
           consumed' = used_rx_indices (match_run fsub (tx @ [t_s]) rx max_latency)
       in if \<exists>i. eligible fsub rx max_latency consumed t_s i
          then \<exists>i. nearest fsub rx max_latency consumed t_s i \<and>
                 after = before @ [\<lparr>packet_num = length tx, tx_time = t_s, rx_time = rx ! i,
                                      latency = fsub (rx ! i) t_s\<rparr>] \<and>
                 consumed' = insert i consumed
          else after = before \<and> consumed' = consumed)"
proof -
  let ?s = "match_loop fsub rx max_latency (enumerate 0 tx) match_init"
  have base: "match_triggers_and_calculate_latency fsub [] rx max_latency = []"
    "used_rx_indices (match_run fsub [] rx max_latency) = {}"
    by (simp_all add: match_triggers_and_calculate_latency_def match_run_def match_init_def)
  have step: "let consumed = used_rx_indices (match_run fsub tx rx max_latency);
           before = match_triggers_and_calculate_latency fsub tx rx max_latency;
           after = match_triggers_and_calculate_latency fsub (tx @ [t_s]) rx max_latency;
           consumed' = used_rx_indices (match_run fsub (tx @ [t_s]) rx max_latency)
       in if \<exists>i. eligible fsub rx max_latency consumed t_s i
          then \<exists>i. nearest fsub rx max_latency consumed t_s i \<and>
                 after = before @ [\<lparr>packet_num = length tx, tx_time = t_s, rx_time = rx ! i,
                                      latency = fsub (rx ! i) t_s\<rparr>] \<and>
                 consumed' = insert i consumed
          else after = before \<and> consumed' = consumed"
  proof (cases "\<exists>i. eligible fsub rx max_latency (used_rx_indices ?s) t_s i")
    case True
    from match_body_some [OF True, of "length tx"] show ?thesis
      using True
      by (auto simp: match_triggers_and_calculate_latency_def match_run_fields match_loop_snoc
            Let_def LatencyMeasurement_init_def)
  next
    case False
    from match_body_none [OF False, of "length tx"] show ?thesis
      using False
      by (simp add: match_triggers_and_calculate_latency_def match_run_fields match_loop_snoc
            Let_def)
  qed
  from base step show ?thesis by blast
qed

text \<open>
  The witness runs two cases.  In the first the second send event of \<open>[0, 10]\<close> takes
  receive position 1 of \<open>[2, 12]\<close>, position 0 being consumed.  In the second the send
  event is at \<open>-2^53\<close> and the receive events are \<open>[1, 0]\<close>: both float latencies are
  \<open>2^53\<close>, and the matcher keeps position 0, the first of the two.
\<close>

theorem greedy_nearest_matching_witness:
  "nearest example_fsub [2, 12] 100
     (used_rx_indices (match_run example_fsub [0] [2, 12] 100)) 10 1
   \<and> match_triggers_and_calculate_latency example_fsub [0, 10] [2, 12] 100 =
       match_triggers_and_calculate_latency example_fsub [0] [2, 12] 100
         @ [\<lparr>packet_num = 1, tx_time = 10, rx_time = 12, latency = 2\<rparr>]
   \<and> used_rx_indices (match_run example_fsub [0, 10] [2, 12] 100) =
       insert 1 (used_rx_indices (match_run example_fsub [0] [2, 12] 100))
   \<and> nearest example_fsub [1, 0] 100000000000000000 {} (- 9007199254740992) 0
   \<and> match_triggers_and_calculate_latency example_fsub [- 9007199254740992] [1, 0]
         100000000000000000 =
       [\<lparr>packet_num = 0, tx_time = - 9007199254740992, rx_time = 1,
         latency = 9007199254740992\<rparr>]
   \<and> used_rx_indices (match_run example_fsub [- 9007199254740992] [1, 0] 100000000000000000)
       = {0}"
proof -
  have u: "used_rx_indices (match_run example_fsub [0] [2, 12] 100) = {0}"
    by (simp add: matcher_eval)
  have n: "nearest example_fsub [2, 12] 100 {0} 10 1"
    by (simp add: nearest_def eligible_def example_fsub_def)
  then have e: "\<exists>i. eligible example_fsub [2, 12] 100 {0} 10 i"
    by (auto simp: nearest_def)
  from greedy_nearest_matching [where fsub = example_fsub and tx = "[0]" and rx = "[2, 12]"
      and max_latency = 100 and t_s = 10] e
  obtain i where i: "nearest example_fsub [2, 12] 100 {0} 10 i"
     "match_triggers_and_calculate_latency example_fsub [0, 10] [2, 12] 100 =
       match_triggers_and_calculate_latency example_fsub [0] [2, 12] 100
         @ [\<lparr>packet_num = 1, tx_time = 10, rx_time = [2, 12] ! i,
              latency = example_fsub ([2, 12] ! i) 10\<rparr>]"
     "used_rx_indices (match_run example_fsub [0, 10] [2, 12] 100) = insert i {0}"
    unfolding Let_def u by auto
  from nearest_unique [OF i(1) n] have i1: "i = 1" .
  have first: "nearest example_fsub [2, 12] 100
     (used_rx_indices (match_run example_fsub [0] [2, 12] 100)) 10 1
   \<and> match_triggers_and_calculate_latency example_fsub [0, 10] [2, 12] 100 =
       match_triggers_and_calculate_latency example_fsub [0] [2, 12] 100
         @ [\<lparr>packet_num = 1, tx_time = 10, rx_time = 12, latency = 2\<rparr>]
   \<and> used_rx_indices (match_run example_fsub [0, 10] [2, 12] 100) =
       insert 1 (used_rx_indices (match_run example_fsub [0] [2, 12] 100))"
    using i n u by (simp add: i1 example_fsub_def)
  have n2: "nearest example_fsub [1, 0] 100000000000000000 {} (- 9007199254740992) 0"
    by (simp add: nearest_def eligible_def example_fsub_def atLeast0_lessThan_Suc)
  then have e2: "\<exists>i. eligible example_fsub [1, 0] 100000000000000000 {} (- 9007199254740992) i"
    by (auto simp: nearest_def)
  have u0: "used_rx_indices (match_run example_fsub [] [1, 0] 100000000000000000) = {}"
    "match_triggers_and_calculate_latency example_fsub [] [1, 0] 100000000000000000 = []"
    by (simp_all add: matcher_eval)
  from greedy_nearest_matching [where fsub = example_fsub and tx = "[]" and rx = "[1, 0]"
      and max_latency = 100000000000000000 and t_s = "- 9007199254740992"]
  have "if \<exists>i. eligible example_fsub [1, 0] 100000000000000000 {} (- 9007199254740992) i
        then \<exists>i. nearest example_fsub [1, 0] 100000000000000000 {} (- 9007199254740992) i \<and>
          match_triggers_and_calculate_latency example_fsub [- 9007199254740992] [1, 0]
              100000000000000000 =
            [\<lparr>packet_num = 0, tx_time = - 9007199254740992, rx_time = [1, 0] ! i,
              latency = example_fsub ([1, 0] ! i) (- 9007199254740992)\<rparr>] \<and>
          used_rx_indices
             (match_run example_fsub [- 9007199254740992] [1, 0] 100000000000000000)
            = insert i {}
        else match_triggers_and_calculate_latency example_fsub [- 9007199254740992] [1, 0]
              100000000000000000 = [] \<and>
          used_rx_indices
             (match_run example_fsub [- 9007199254740992] [1, 0] 100000000000000000) = {}"
    unfolding Let_def u0 by (simp cong: if_cong)
  with e2 obtain j where
    j: "nearest example_fsub [1, 0] 100000000000000000 {} (- 9007199254740992) j"
     "match_triggers_and_calculate_latency example_fsub [- 9007199254740992] [1, 0]
         100000000000000000 =
       [\<lparr>packet_num = 0, tx_time = - 9007199254740992, rx_time = [1, 0] ! j,
         latency = example_fsub ([1, 0] ! j) (- 9007199254740992)\<rparr>]"
     "used_rx_indices (match_run example_fsub [- 9007199254740992] [1, 0] 100000000000000000)
        = insert j {}"
    by auto
  from nearest_unique [OF j(1) n2] have j0: "j = 0" .
  have second: "match_triggers_and_calculate_latency example_fsub [- 9007199254740992] [1, 0]
         100000000000000000 =
       [\<lparr>packet_num = 0, tx_time = - 9007199254740992, rx_time = 1,
         latency = 9007199254740992\<rparr>]
   \<and> used_rx_indices (match_run example_fsub [- 9007199254740992] [1, 0] 100000000000000000)
       = {0}"
    using j by (simp add: j0 example_fsub_def)
  from first n2 second show ?thesis by blast
qed

lemma match_inv_step:
  assumes "match_inv fsub tx rx m s"
  shows "match_inv fsub (tx @ [t]) rx m (match_body fsub rx m s (length tx, t))"
proof -
  from assms obtain "is" where is':
    "length is = length (measurements s)" "distinct is" "set is = used_rx_indices s"
    "set is \<subseteq> {..<length rx}" "map rx_time (measurements s) = map (\<lambda>i. rx ! i) is"
    unfolding match_inv_def by blast
  from assms have old: "\<forall>x \<in> set (measurements s).
        packet_num x < length tx \<and> tx_time x = tx ! packet_num x \<and>
        latency x = fsub (rx_time x) (tx_time x) \<and> tx_time x < rx_time x \<and>
        fsub (rx_time x) (tx_time x) \<le> m"
    and srt: "sorted_wrt (<) (map packet_num (measurements s))"
    unfolding match_inv_def by blast+
  from old have old': "\<forall>x \<in> set (measurements s).
        packet_num x < length (tx @ [t]) \<and> tx_time x = (tx @ [t]) ! packet_num x \<and>
        latency x = fsub (rx_time x) (tx_time x) \<and> tx_time x < rx_time x \<and>
        fsub (rx_time x) (tx_time x) \<le> m"
    by (auto simp: nth_append)
  show ?thesis
  proof (cases "\<exists>i. eligible fsub rx m (used_rx_indices s) t i")
    case False
    have "match_body fsub rx m s (length tx, t) = s\<lparr>stdout := stdout s @ [No_match_warning (length tx) t]\<rparr>"
      by (rule match_body_none [OF False])
    then show ?thesis using is' old' srt unfolding match_inv_def by auto
  next
    case True
    from match_body_some [OF True, of "length tx"] obtain i where
      i: "nearest fsub rx m (used_rx_indices s) t i" and
      b: "match_body fsub rx m s (length tx, t) =
             s\<lparr>measurements := measurements s @ [LatencyMeasurement_init fsub (length tx) t (rx ! i)],
               used_rx_indices := insert i (used_rx_indices s)\<rparr>"
      by blast
    from i have e: "i < length rx" "i \<notin> used_rx_indices s" "t < rx ! i" "fsub (rx ! i) t \<le> m"
      by (auto simp: nearest_def eligible_def)
    let ?s' = "match_body fsub rx m s (length tx, t)"
    have A: "length (is @ [i]) = length (measurements ?s') \<and> distinct (is @ [i]) \<and>
             set (is @ [i]) = used_rx_indices ?s' \<and> set (is @ [i]) \<subseteq> {..<length rx} \<and>
             map rx_time (measurements ?s') = map (\<lambda>i. rx ! i) (is @ [i])"
      using is' e by (simp add: b LatencyMeasurement_init_def)
    have B: "\<forall>x \<in> set (measurements ?s').
        packet_num x < length (tx @ [t]) \<and> tx_time x = (tx @ [t]) ! packet_num x \<and>
        latency x = fsub (rx_time x) (tx_time x) \<and> tx_time x < rx_time x \<and>
        fsub (rx_time x) (tx_time x) \<le> m"
    proof
      fix x assume "x \<in> set (measurements ?s')"
      then have "x \<in> set (measurements s) \<or> x = LatencyMeasurement_init fsub (length tx) t (rx ! i)"
        by (auto simp: b)
      then show "packet_num x < length (tx @ [t]) \<and> tx_time x = (tx @ [t]) ! packet_num x \<and>
        latency x = fsub (rx_time x) (tx_time x) \<and> tx_time x < rx_time x \<and>
        fsub (rx_time x) (tx_time x) \<le> m"
      proof
        assume "x \<in> set (measurements s)"
        with old' show ?thesis by blast
      next
        assume "x = LatencyMeasurement_init fsub (length tx) t (rx ! i)"
        with e show ?thesis by (simp add: LatencyMeasurement_init_def)
      qed
    qed
    have C: "sorted_wrt (<) (map packet_num (measurements ?s'))"
      using srt old by (simp add: b LatencyMeasurement_init_def sorted_wrt_append)
    from A B C show ?thesis unfolding match_inv_def by blast
  qed
qed

lemma match_inv_loop: "match_inv fsub tx rx m (match_loop fsub rx m (enumerate 0 tx) match_init)"
proof (induction tx rule: rev_induct)
  case Nil
  show ?case by (simp add: match_inv_def match_init_def)
next
  case (snoc t tx)
  then show ?case by (simp add: match_loop_snoc match_inv_step)
qed

lemma match_inv_run: "match_inv fsub tx rx m (match_run fsub tx rx m)"
  using match_inv_loop [of fsub tx rx m] unfolding match_inv_def match_run_fields .

lemma matcher_measurements:
  assumes "x \<in> set (match_triggers_and_calculate_latency fsub tx rx m)"
  shows "packet_num x < length tx" "tx_time x = tx ! packet_num x"
    "latency x = fsub (rx_time x) (tx_time x)" "tx_time x < rx_time x" "fsub (rx_time x) (tx_time x) \<le> m"
  using match_inv_run [of fsub tx rx m] assms
  unfolding match_inv_def match_triggers_and_calculate_latency_def by blast+

lemma matcher_indices:
  "\<exists>is. length is = length (match_triggers_and_calculate_latency fsub tx rx m) \<and> distinct is \<and>
        set is = used_rx_indices (match_run fsub tx rx m) \<and> set is \<subseteq> {..<length rx} \<and>
        map rx_time (match_triggers_and_calculate_latency fsub tx rx m) = map (\<lambda>i. rx ! i) is"
  using match_inv_run [of fsub tx rx m]
  unfolding match_inv_def match_triggers_and_calculate_latency_def by blast

lemma matcher_sorted:
  "sorted_wrt (<) (map packet_num (match_triggers_and_calculate_latency fsub tx rx m))"
  using match_inv_run [of fsub tx rx m]
  unfolding match_inv_def match_triggers_and_calculate_latency_def by blast

text \<open>
  Claim C2.  With \<open>max_latency > 0\<close>, every measurement the matcher returns has for its
  \<open>latency\<close> the float difference of \<open>rx_time\<close> and \<open>tx_time\<close>, has \<open>rx_time > tx_time\<close>
  and \<open>latency \<le> max_latency\<close>.  The program tests the order of the two times, not the
  sign of their difference, so \<open>0 < latency\<close> rests on the arithmetic: it holds whenever the
  float difference of a later and an earlier time is positive, as it is for doubles, where
  a nonzero difference never rounds to zero.
\<close>

theorem measurement_bounds:
  assumes "0 < max_latency"
    and "x \<in> set (match_triggers_and_calculate_latency fsub tx rx max_latency)"
  shows "latency x = fsub (rx_time x) (tx_time x) \<and> rx_time x > tx_time x \<and>
         latency x \<le> max_latency \<and>
         ((\<forall>a b. b < a \<longrightarrow> 0 < fsub a b) \<longrightarrow> 0 < latency x)"
  using matcher_measurements(3,4,5) [OF assms(2)] by simp

text \<open>
  The witness is the run on the doubles \<^verbatim>\<open>0.1\<close> and \<^verbatim>\<open>300.1\<close> with bound \<^verbatim>\<open>300.0\<close>: the
  float difference is \<^verbatim>\<open>300.0\<close>, within the bound, and the measurement is returned with
  that latency.
\<close>

theorem measurement_bounds_witness:
  "(0::real) < 300
   \<and> match_triggers_and_calculate_latency example_fsub
        [3602879701896397 / 36028797018963968] [2639707515964621 / 8796093022208] 300 =
      [\<lparr>packet_num = 0, tx_time = 3602879701896397 / 36028797018963968,
        rx_time = 2639707515964621 / 8796093022208, latency = 300\<rparr>]
   \<and> latency \<lparr>packet_num = 0, tx_time = 3602879701896397 / 36028797018963968,
        rx_time = 2639707515964621 / 8796093022208, latency = 300\<rparr>
      = example_fsub (2639707515964621 / 8796093022208) (3602879701896397 / 36028797018963968)
   \<and> (0::real) < latency \<lparr>packet_num = 0, tx_time = 3602879701896397 / 36028797018963968,
        rx_time = 2639707515964621 / 8796093022208, latency = 300\<rparr>
   \<and> latency \<lparr>packet_num = 0, tx_time = 3602879701896397 / 36028797018963968,
        rx_time = 2639707515964621 / 8796093022208, latency = 300\<rparr> \<le> (300::real)"
proof -
  let ?x = "\<lparr>packet_num = 0, tx_time = 3602879701896397 / 36028797018963968,
        rx_time = 2639707515964621 / 8796093022208, latency = (300::real)\<rparr>"
  have p: "(0::real) < 300" by simp
  have r: "match_triggers_and_calculate_latency example_fsub
        [3602879701896397 / 36028797018963968] [2639707515964621 / 8796093022208] 300 = [?x]"
    by (simp add: matcher_eval)
  then have x: "?x \<in> set (match_triggers_and_calculate_latency example_fsub
        [3602879701896397 / 36028797018963968] [2639707515964621 / 8796093022208] 300)"
    by simp
  have pos: "\<forall>a b. b < a \<longrightarrow> 0 < example_fsub a b"
    by (simp add: example_fsub_def)
  from measurement_bounds [OF p x] pos
  have "latency ?x = example_fsub (rx_time ?x) (tx_time ?x) \<and> latency ?x \<le> 300 \<and> 0 < latency ?x"
    by blast
  with p r show ?thesis by simp
qed

text \<open>
  Claim C10.  Nothing is assumed about the order of the two timestamp lists or about
  \<open>max_latency\<close>: every measurement pairs a send time of the input with a later receive time
  of the input, and their float difference, which is the measurement's latency, is at most
  \<open>max_latency\<close>.
\<close>

theorem unsorted_inputs_guarantees:
  "\<forall>x \<in> set (match_triggers_and_calculate_latency fsub tx rx max_latency).
     rx_time x > tx_time x \<and> fsub (rx_time x) (tx_time x) \<le> max_latency \<and>
     latency x = fsub (rx_time x) (tx_time x) \<and>
     rx_time x \<in> set rx \<and> tx_time x \<in> set tx"
proof
  fix x assume x: "x \<in> set (match_triggers_and_calculate_latency fsub tx rx max_latency)"
  from matcher_indices [of fsub tx rx max_latency] obtain "is" where
    "set is \<subseteq> {..<length rx}"
    "map rx_time (match_triggers_and_calculate_latency fsub tx rx max_latency)
       = map (\<lambda>i. rx ! i) is"
    by blast
  then have "set (map rx_time (match_triggers_and_calculate_latency fsub tx rx max_latency))
      \<subseteq> set rx"
    by (auto simp: subset_iff)
  with x have "rx_time x \<in> set rx" by auto
  moreover have "tx_time x \<in> set tx"
    using matcher_measurements(1,2) [OF x] by simp
  ultimately show "rx_time x > tx_time x \<and> fsub (rx_time x) (tx_time x) \<le> max_latency \<and>
     latency x = fsub (rx_time x) (tx_time x) \<and>
     rx_time x \<in> set rx \<and> tx_time x \<in> set tx"
    using matcher_measurements(3,4,5) [OF x] by simp
qed

text \<open>
  The witness runs the matcher on unsorted lists, and on the doubles \<^verbatim>\<open>0.001\<close> and
  \<^verbatim>\<open>0.012\<close> with the double \<^verbatim>\<open>0.011\<close> as bound, where the float difference equals the
  bound and the pair is matched.
\<close>

theorem unsorted_inputs_guarantees_witness:
  "\<not> sorted [10, 0 :: real] \<and> \<not> sorted [12, 2 :: real]
   \<and> match_triggers_and_calculate_latency example_fsub [10, 0] [12, 2] 5 =
       [\<lparr>packet_num = 0, tx_time = 10, rx_time = 12, latency = 2\<rparr>,
        \<lparr>packet_num = 1, tx_time = 0, rx_time = 2, latency = 2\<rparr>]
   \<and> example_fsub 2 0 \<le> 5
   \<and> match_triggers_and_calculate_latency example_fsub
        [1152921504606847 / 1152921504606846976] [3458764513820541 / 288230376151711744]
        (3170534137668829 / 288230376151711744) =
       [\<lparr>packet_num = 0, tx_time = 1152921504606847 / 1152921504606846976,
         rx_time = 3458764513820541 / 288230376151711744,
         latency = 3170534137668829 / 288230376151711744\<rparr>]
   \<and> example_fsub (3458764513820541 / 288230376151711744)
        (1152921504606847 / 1152921504606846976) \<le> 3170534137668829 / 288230376151711744"
proof -
  let ?y = "\<lparr>packet_num = 1, tx_time = 0, rx_time = 2, latency = (2::real)\<rparr>"
  let ?z = "\<lparr>packet_num = 0, tx_time = 1152921504606847 / 1152921504606846976,
         rx_time = 3458764513820541 / 288230376151711744,
         latency = (3170534137668829 / 288230376151711744 :: real)\<rparr>"
  have r: "match_triggers_and_calculate_latency example_fsub [10, 0] [12, 2] 5 =
       [\<lparr>packet_num = 0, tx_time = 10, rx_time = 12, latency = 2\<rparr>, ?y]"
    by (simp add: matcher_eval)
  then have "?y \<in> set (match_triggers_and_calculate_latency example_fsub [10, 0] [12, 2] 5)"
    by simp
  with unsorted_inputs_guarantees [of example_fsub "[10, 0]" "[12, 2]" 5]
  have "example_fsub (rx_time ?y) (tx_time ?y) \<le> 5"
    by blast
  then have a: "example_fsub 2 0 \<le> 5" by simp
  have q: "match_triggers_and_calculate_latency example_fsub
        [1152921504606847 / 1152921504606846976] [3458764513820541 / 288230376151711744]
        (3170534137668829 / 288230376151711744) = [?z]"
    by (simp add: matcher_eval)
  then have "?z \<in> set (match_triggers_and_calculate_latency example_fsub
        [1152921504606847 / 1152921504606846976] [3458764513820541 / 288230376151711744]
        (3170534137668829 / 288230376151711744))"
    by simp
  with unsorted_inputs_guarantees [of example_fsub "[1152921504606847 / 1152921504606846976]"
      "[3458764513820541 / 288230376151711744]" "3170534137668829 / 288230376151711744"]
  have "example_fsub (rx_time ?z) (tx_time ?z) \<le> 3170534137668829 / 288230376151711744"
    by blast
  then have b: "example_fsub (3458764513820541 / 288230376151711744)
        (1152921504606847 / 1152921504606846976) \<le> 3170534137668829 / 288230376151711744"
    by simp
  from r a q b show ?thesis by simp
qed

text \<open>
  Claim C5, as stated, fails: consumption is by position, so two receive events with the
  same timestamp can both be matched.  Send events \<open>[0, 1]\<close> against receive events
  \<open>[2, 2]\<close> give two measurements with \<open>rx_time = 2\<close>.
\<close>

theorem shared_receive_time_counterexample:
  "\<not> distinct (map rx_time (match_triggers_and_calculate_latency example_fsub [0, 1] [2, 2] 100))"
  by (simp add: matcher_eval)

text \<open>
  Claim C5, amended.  When the receive timestamps are pairwise distinct, no two
  measurements share their \<open>rx_time\<close>.
\<close>

theorem distinct_receive_times:
  assumes "distinct rx"
  shows "distinct (map rx_time (match_triggers_and_calculate_latency fsub tx rx max_latency))"
proof -
  from matcher_indices [of fsub tx rx max_latency] obtain "is" where is':
    "distinct is" "set is \<subseteq> {..<length rx}"
    "map rx_time (match_triggers_and_calculate_latency fsub tx rx max_latency) = map (\<lambda>i. rx ! i) is"
    by blast
  have "inj_on (\<lambda>i. rx ! i) (set is)"
    using assms is'(2) by (auto simp: inj_on_def nth_eq_iff_index_eq subset_iff)
  with is'(1) show ?thesis by (simp add: is'(3) distinct_map)
qed

theorem distinct_receive_times_witness:
  "distinct [2, 12 :: real]
   \<and> distinct (map rx_time (match_triggers_and_calculate_latency example_fsub [0, 10] [2, 12] 100))
   \<and> map rx_time (match_triggers_and_calculate_latency example_fsub [0, 10] [2, 12] 100) = [2, 12]"
proof -
  have d: "distinct [2, 12 :: real]" by simp
  have "map rx_time (match_triggers_and_calculate_latency example_fsub [0, 10] [2, 12] 100) = [2, 12]"
    by (simp add: matcher_eval)
  with d distinct_receive_times [OF d, of example_fsub "[0, 10]" 100] show ?thesis by simp
qed

text \<open>
  Claim C9.  The receive positions consumed, in the order of the measurements, are pairwise
  distinct and are exactly the final consumed set; the packet numbers of the measurements
  are strictly increasing, each the index of its send event; and there are at most
  \<open>min (length tx) (length rx)\<close> measurements.
\<close>

theorem one_to_one_by_position:
  "let s = match_run fsub tx rx max_latency;
       ms = match_triggers_and_calculate_latency fsub tx rx max_latency
   in (\<exists>is. length is = length ms \<and> distinct is \<and> set is = used_rx_indices s \<and>
         (\<forall>j \<in> {0..<length ms}. is ! j < length rx \<and> rx_time (ms ! j) = rx ! (is ! j))) \<and>
      sorted_wrt (<) (map packet_num ms) \<and>
      (\<forall>x \<in> set ms. packet_num x < length tx \<and> tx_time x = tx ! packet_num x) \<and>
      length ms \<le> min (length tx) (length rx)"
proof -
  let ?ms = "match_triggers_and_calculate_latency fsub tx rx max_latency"
  from matcher_indices [of fsub tx rx max_latency] obtain "is" where is':
    "length is = length ?ms" "distinct is" "set is = used_rx_indices (match_run fsub tx rx max_latency)"
    "set is \<subseteq> {..<length rx}" "map rx_time ?ms = map (\<lambda>i. rx ! i) is"
    by blast
  have nth: "\<forall>j \<in> {0..<length ?ms}. is ! j < length rx \<and> rx_time (?ms ! j) = rx ! (is ! j)"
  proof
    fix j assume "j \<in> {0..<length ?ms}"
    then have j: "j < length ?ms" "j < length is" using is'(1) by simp_all
    from j(2) is'(4) have "is ! j < length rx" by (auto simp: subset_iff)
    moreover have "map rx_time ?ms ! j = map (\<lambda>i. rx ! i) is ! j" by (simp add: is'(5))
    with j have "rx_time (?ms ! j) = rx ! (is ! j)" by simp
    ultimately show "is ! j < length rx \<and> rx_time (?ms ! j) = rx ! (is ! j)" ..
  qed
  have "length is = card (set is)" using is'(2) by (simp add: distinct_card)
  also have "\<dots> \<le> card {..<length rx}" using is'(4) by (intro card_mono) simp_all
  finally have le_rx: "length ?ms \<le> length rx" using is'(1) by simp
  have srt: "sorted_wrt (<) (map packet_num ?ms)" by (rule matcher_sorted)
  then have "distinct (map packet_num ?ms)" by (simp add: strict_sorted_iff)
  moreover have "set (map packet_num ?ms) \<subseteq> {..<length tx}"
    using matcher_measurements(1) [of _ fsub tx rx max_latency] by auto
  ultimately have "length (map packet_num ?ms) \<le> card {..<length tx}"
    by (metis card_mono distinct_card finite_lessThan)
  then have le_tx: "length ?ms \<le> length tx" by simp
  have pk: "\<forall>x \<in> set ?ms. packet_num x < length tx \<and> tx_time x = tx ! packet_num x"
    using matcher_measurements(1,2) [of _ fsub tx rx max_latency] by blast
  from is'(1,2,3) nth srt pk le_rx le_tx show ?thesis
    unfolding Let_def by (intro conjI exI [of _ "is"]) simp_all
qed

theorem one_to_one_by_position_witness:
  "map packet_num (match_triggers_and_calculate_latency example_fsub [0, 5, 10] [2, 12] 3) = [0, 2]
   \<and> used_rx_indices (match_run example_fsub [0, 5, 10] [2, 12] 3) = {0, 1}
   \<and> sorted_wrt (<) (map packet_num (match_triggers_and_calculate_latency example_fsub [0, 5, 10] [2, 12] 3))
   \<and> length (match_triggers_and_calculate_latency example_fsub [0, 5, 10] [2, 12] 3)
        \<le> min (length [0, 5, 10 :: real]) (length [2, 12 :: real])"
proof -
  have "sorted_wrt (<) (map packet_num (match_triggers_and_calculate_latency example_fsub [0, 5, 10] [2, 12] 3))
   \<and> length (match_triggers_and_calculate_latency example_fsub [0, 5, 10] [2, 12] 3)
        \<le> min (length [0, 5, 10 :: real]) (length [2, 12 :: real])"
    using one_to_one_by_position [where fsub = example_fsub and tx = "[0, 5, 10]" and rx = "[2, 12]" and max_latency = 3]
    unfolding Let_def by blast
  moreover have "map packet_num (match_triggers_and_calculate_latency example_fsub [0, 5, 10] [2, 12] 3) = [0, 2]"
    by (simp add: matcher_eval)
  moreover have "used_rx_indices (match_run example_fsub [0, 5, 10] [2, 12] 3) = {0, 1}"
    by (simp add: matcher_eval insert_commute)
  ultimately show ?thesis by blast
qed

lemma match_body_extends:
  "\<exists>new out. measurements (match_body fsub rx m s (n, t)) = measurements s @ new \<and>
     (\<forall>x \<in> set new. packet_num x = n) \<and>
     stdout (match_body fsub rx m s (n, t)) = stdout s @ out"
proof (cases "\<exists>i. eligible fsub rx m (used_rx_indices s) t i")
  case True
  from match_body_some [OF True, of n] show ?thesis
    by (auto simp: LatencyMeasurement_init_def)
next
  case False
  from match_body_none [OF False, of n] show ?thesis by simp
qed

lemma match_loop_extends:
  "\<exists>new out. measurements (match_loop fsub rx m (enumerate n xs) s) = measurements s @ new \<and>
     (\<forall>x \<in> set new. n \<le> packet_num x) \<and>
     stdout (match_loop fsub rx m (enumerate n xs) s) = stdout s @ out"
proof (induction xs arbitrary: n s)
  case Nil
  show ?case by simp
next
  case (Cons t xs)
  from match_body_extends [of fsub rx m s n t] obtain new1 out1 where
    b: "measurements (match_body fsub rx m s (n, t)) = measurements s @ new1"
       "\<forall>x \<in> set new1. packet_num x = n"
       "stdout (match_body fsub rx m s (n, t)) = stdout s @ out1"
    by blast
  from Cons.IH [of "Suc n" "match_body fsub rx m s (n, t)"] obtain new2 out2 where
    l: "measurements (match_loop fsub rx m (enumerate (Suc n) xs) (match_body fsub rx m s (n, t)))
          = measurements (match_body fsub rx m s (n, t)) @ new2"
       "\<forall>x \<in> set new2. Suc n \<le> packet_num x"
       "stdout (match_loop fsub rx m (enumerate (Suc n) xs) (match_body fsub rx m s (n, t)))
          = stdout (match_body fsub rx m s (n, t)) @ out2"
    by blast
  have "measurements (match_loop fsub rx m (enumerate n (t # xs)) s) = measurements s @ (new1 @ new2)"
    by (simp add: l(1) b(1))
  moreover have "\<forall>x \<in> set (new1 @ new2). n \<le> packet_num x"
    using b(2) l(2) by auto
  moreover have "stdout (match_loop fsub rx m (enumerate n (t # xs)) s) = stdout s @ (out1 @ out2)"
    by (simp add: l(3) b(3))
  ultimately show ?case by blast
qed

lemma match_loop_split:
  assumes "k < length tx"
  shows "match_loop fsub rx m (enumerate 0 tx) s =
     match_loop fsub rx m (enumerate (Suc k) (drop (Suc k) tx))
       (match_body fsub rx m (match_loop fsub rx m (enumerate 0 (take k tx)) s) (k, tx ! k))"
proof -
  have "tx = take k tx @ tx ! k # drop (Suc k) tx"
    using assms by (simp add: id_take_nth_drop)
  then have "enumerate 0 tx =
      enumerate 0 (take k tx) @ (k, tx ! k) # enumerate (Suc k) (drop (Suc k) tx)"
    using assms by (metis add_0 enumerate_append_eq enumerate_simps(2) length_take min.absorb2 less_imp_le)
  then show ?thesis by (simp add: match_loop_append)
qed

lemma stdout_loop:
  "stdout (match_loop fsub rx m (enumerate 0 tx) match_init) =
     Matching_line # map (\<lambda>k. No_match_warning k (tx ! k))
       (filter (\<lambda>k. k \<notin> packet_num ` set (measurements (match_loop fsub rx m (enumerate 0 tx) match_init)))
          [0..<length tx])"
proof (induction tx rule: rev_induct)
  case Nil
  show ?case by (simp add: match_init_def)
next
  case (snoc t tx)
  let ?s = "match_loop fsub rx m (enumerate 0 tx) match_init"
  have old: "\<forall>x \<in> set (measurements ?s). packet_num x < length tx"
    using match_inv_loop [of fsub tx rx m] unfolding match_inv_def by blast
  have mp: "map (\<lambda>k. No_match_warning k ((tx @ [t]) ! k)) (filter P [0..<length tx])
          = map (\<lambda>k. No_match_warning k (tx ! k)) (filter P [0..<length tx])" for P
    by (rule map_cong) (auto simp: nth_append)
  show ?case
  proof (cases "\<exists>i. eligible fsub rx m (used_rx_indices ?s) t i")
    case False
    have n: "length tx \<notin> packet_num ` set (measurements ?s)" using old by auto
    from match_body_none [OF False, of "length tx"] show ?thesis
      using n by (simp add: match_loop_snoc snoc.IH mp)
  next
    case True
    from match_body_some [OF True, of "length tx"] obtain i where
      b: "match_body fsub rx m ?s (length tx, t) =
             ?s\<lparr>measurements := measurements ?s @ [LatencyMeasurement_init fsub (length tx) t (rx ! i)],
               used_rx_indices := insert i (used_rx_indices ?s)\<rparr>"
      by blast
    have "filter (\<lambda>k. k \<notin> packet_num ` set (measurements ?s @ [LatencyMeasurement_init fsub (length tx) t (rx ! i)]))
            [0..<length tx]
        = filter (\<lambda>k. k \<notin> packet_num ` set (measurements ?s)) [0..<length tx]"
      by (rule filter_cong) (auto simp: LatencyMeasurement_init_def)
    then show ?thesis
      by (simp add: match_loop_snoc b snoc.IH mp LatencyMeasurement_init_def)
  qed
qed

lemma stdout_run:
  "stdout (match_run fsub tx rx m) =
     stdout (match_loop fsub rx m (enumerate 0 tx) match_init)
       @ [Matched_line (length (match_triggers_and_calculate_latency fsub tx rx m))]"
  by (simp add: match_run_def match_triggers_and_calculate_latency_def Let_def)

lemma warning_iff_unmatched:
  assumes "j < length tx"
  shows "No_match_warning j (tx ! j) \<in> set (stdout (match_run fsub tx rx m)) \<longleftrightarrow>
         j \<notin> packet_num ` set (match_triggers_and_calculate_latency fsub tx rx m)"
  using assms
  by (auto simp: stdout_run stdout_loop [of fsub rx m tx] match_triggers_and_calculate_latency_def
        match_run_fields)

text \<open>
  Claim C7, as stated, fails in one point: the matcher returns the measurements only.  An
  unmatched send event leaves no trace in the returned list; it is the printed warning that
  tells it.  For the send events \<open>[0]\<close> and for no send events at all, against receive events
  \<open>[50]\<close> with bound 10, the returned lists are the same, and only the first run prints a
  warning.
\<close>

theorem unmatched_not_returned_counterexample:
  "match_triggers_and_calculate_latency example_fsub [0] [50] 10 = []
   \<and> match_triggers_and_calculate_latency example_fsub [] [50] 10 = []
   \<and> No_match_warning 0 0 \<in> set (stdout (match_run example_fsub [0] [50] 10))
   \<and> No_match_warning 0 0 \<notin> set (stdout (match_run example_fsub [] [50] 10))"
  by (simp add: matcher_eval)

text \<open>
  Claim C7, amended.  A send event \<open>k\<close> for which no receive event is eligible when its
  turn comes (none that is unconsumed, later, and with its float latency within the bound)
  is reported and skipped: its warning line is among the lines the matcher prints, no
  measurement carries its index, and the run goes on with the send events after it, from
  the state it had before with only the warning added.  Every send event ends up with
  either a measurement or a warning, never both.
\<close>

theorem unmatched_send_is_recoverable:
  assumes "k < length tx"
    and "\<not> (\<exists>i. eligible fsub rx max_latency
                 (used_rx_indices (match_run fsub (take k tx) rx max_latency)) (tx ! k) i)"
  shows "No_match_warning k (tx ! k) \<in> set (stdout (match_run fsub tx rx max_latency))
     \<and> (\<forall>x \<in> set (match_triggers_and_calculate_latency fsub tx rx max_latency). packet_num x \<noteq> k)
     \<and> match_loop fsub rx max_latency (enumerate 0 tx) match_init =
         match_loop fsub rx max_latency (enumerate (Suc k) (drop (Suc k) tx))
           ((match_loop fsub rx max_latency (enumerate 0 (take k tx)) match_init)
              \<lparr>stdout := stdout (match_loop fsub rx max_latency (enumerate 0 (take k tx)) match_init)
                           @ [No_match_warning k (tx ! k)]\<rparr>)
     \<and> (\<forall>j \<in> {0..<length tx}.
           (\<exists>x \<in> set (match_triggers_and_calculate_latency fsub tx rx max_latency). packet_num x = j)
           \<noteq> (No_match_warning j (tx ! j) \<in> set (stdout (match_run fsub tx rx max_latency))))"
proof -
  let ?m = max_latency
  let ?pre = "match_loop fsub rx ?m (enumerate 0 (take k tx)) match_init"
  let ?mid = "?pre\<lparr>stdout := stdout ?pre @ [No_match_warning k (tx ! k)]\<rparr>"
  have ne: "\<not> (\<exists>i. eligible fsub rx ?m (used_rx_indices ?pre) (tx ! k) i)"
    using assms(2) by (simp add: match_run_fields)
  have body: "match_body fsub rx ?m ?pre (k, tx ! k) = ?mid"
    by (rule match_body_none [OF ne])
  have split: "match_loop fsub rx ?m (enumerate 0 tx) match_init =
      match_loop fsub rx ?m (enumerate (Suc k) (drop (Suc k) tx)) ?mid"
    using match_loop_split [OF assms(1), of fsub rx ?m match_init] by (simp add: body)
  from match_loop_extends [of fsub rx ?m "Suc k" "drop (Suc k) tx" ?mid] obtain new out where
    ext: "measurements (match_loop fsub rx ?m (enumerate 0 tx) match_init) = measurements ?pre @ new"
         "\<forall>x \<in> set new. Suc k \<le> packet_num x"
    unfolding split [symmetric] by auto
  have "\<forall>x \<in> set (measurements ?pre). packet_num x < length (take k tx)"
    using match_inv_loop [of fsub "take k tx" rx ?m] unfolding match_inv_def by blast
  then have pre: "\<forall>x \<in> set (measurements ?pre). packet_num x < k"
    using assms(1) by simp
  have nok: "\<forall>x \<in> set (match_triggers_and_calculate_latency fsub tx rx ?m). packet_num x \<noteq> k"
    unfolding match_triggers_and_calculate_latency_def match_run_fields ext(1)
    using pre ext(2) by fastforce
  then have "k \<notin> packet_num ` set (match_triggers_and_calculate_latency fsub tx rx ?m)" by blast
  then have warn: "No_match_warning k (tx ! k) \<in> set (stdout (match_run fsub tx rx ?m))"
    by (simp add: warning_iff_unmatched [OF assms(1)])
  have acct: "\<forall>j \<in> {0..<length tx}.
           (\<exists>x \<in> set (match_triggers_and_calculate_latency fsub tx rx ?m). packet_num x = j)
           \<noteq> (No_match_warning j (tx ! j) \<in> set (stdout (match_run fsub tx rx ?m)))"
    by (auto simp: warning_iff_unmatched)
  from warn nok split acct show ?thesis by blast
qed

theorem unmatched_send_is_recoverable_witness:
  "(1::nat) < length [0, 5, 10 :: real]
   \<and> used_rx_indices (match_run example_fsub (take 1 [0, 5, 10]) [2, 12] 3) = {0}
   \<and> \<not> eligible example_fsub [2, 12] 3 {0} 5 0 \<and> \<not> eligible example_fsub [2, 12] 3 {0} 5 1
   \<and> No_match_warning 1 5 \<in> set (stdout (match_run example_fsub [0, 5, 10] [2, 12] 3))
   \<and> map packet_num (match_triggers_and_calculate_latency example_fsub [0, 5, 10] [2, 12] 3) = [0, 2]"
proof -
  have k: "(1::nat) < length [0, 5, 10 :: real]" by simp
  have u: "used_rx_indices (match_run example_fsub (take 1 [0, 5, 10]) [2, 12] 3) = {0}"
    by (simp add: matcher_eval)
  have e: "\<not> eligible example_fsub [2, 12] 3 {0} 5 i" for i
    by (cases i) (auto simp: eligible_def example_fsub_def)
  have h: "\<not> (\<exists>i. eligible example_fsub [2, 12] 3
           (used_rx_indices (match_run example_fsub (take 1 [0, 5, 10]) [2, 12] 3)) ([0, 5, 10] ! 1) i)"
    using e u by simp
  from unmatched_send_is_recoverable [OF k h]
  have "No_match_warning 1 ([0, 5, 10] ! 1) \<in> set (stdout (match_run example_fsub [0, 5, 10] [2, 12] 3))"
    by blast
  then have w: "No_match_warning 1 5 \<in> set (stdout (match_run example_fsub [0, 5, 10] [2, 12] 3))" by simp
  have p: "map packet_num (match_triggers_and_calculate_latency example_fsub [0, 5, 10] [2, 12] 3) = [0, 2]"
    by (simp add: matcher_eval)
  from k u e w p show ?thesis by blast
qed

subsection \<open>Facts about the report builder and the pipeline\<close>

lemma min_loop_eq: "min_loop xs cur = fold min xs cur"
  by (induction xs arbitrary: cur) (simp_all add: min_def not_less)

lemma max_loop_eq: "max_loop xs cur = fold max xs cur"
  by (induction xs arbitrary: cur) (simp_all add: max_def not_less)

lemma py_min_eq: "xs \<noteq> [] \<Longrightarrow> py_min xs = Inr (Min (set xs))"
  by (cases xs) (simp_all add: py_min_def min_loop_eq Min.set_eq_fold [symmetric])

lemma py_max_eq: "xs \<noteq> [] \<Longrightarrow> py_max xs = Inr (Max (set xs))"
  by (cases xs) (simp_all add: py_max_def max_loop_eq Max.set_eq_fold [symmetric])

lemma rows_loop_eq: "rows_loop fd f2 ms table = table @ concat (map (table_row fd f2) ms)"
  by (induction ms arbitrary: table) simp_all

text \<open>
  Claim C8.  For a non-empty list of measurements the report is the summary block of the
  count, the mean, the minimum and the maximum of the latencies, then the table head, one
  row per measurement in order, and the closing rows.  The mean is the program's own: the
  float sum of the latencies divided, as floats, by the count; minimum and maximum are
  those of the set of latencies.  For the empty list the result is the sentinel text, with
  no exception: the division, which would raise on an empty list, is not reached.
\<close>

theorem report_statistics:
  "(ms \<noteq> [] \<longrightarrow>
      generate_markdown_table fsum fdiv fd f3 f2 ms =
        Inr (summary_block fd f3 (length ms)
               (fdiv (fsum (map latency ms)) (real (length ms)))
               (Min (latency ` set ms)) (Max (latency ` set ms))
             @ table_head
             @ concat (map (table_row fd f2) ms)
             @ summary_rows f2
               (fdiv (fsum (map latency ms)) (real (length ms)))
               (Min (latency ` set ms)) (Max (latency ` set ms))))
   \<and> generate_markdown_table fsum fdiv fd f3 f2 [] = Inr ''No measurements available.''
   \<and> py_truediv fdiv (fsum (map latency [])) (length (map latency [])) = Inl ZeroDivisionError"
proof (intro conjI impI)
  assume ne: "ms \<noteq> []"
  then have l: "map latency ms \<noteq> []" "length ms \<noteq> 0" by simp_all
  have d: "py_truediv fdiv (fsum (map latency ms)) (length (map latency ms))
           = Inr (fdiv (fsum (map latency ms)) (real (length ms)))"
    using l(2) by (simp add: py_truediv_def)
  have mn: "py_min (map latency ms) = Inr (Min (latency ` set ms))"
    using py_min_eq [OF l(1)] by simp
  have mx: "py_max (map latency ms) = Inr (Max (latency ` set ms))"
    using py_max_eq [OF l(1)] by simp
  show "generate_markdown_table fsum fdiv fd f3 f2 ms =
        Inr (summary_block fd f3 (length ms)
               (fdiv (fsum (map latency ms)) (real (length ms)))
               (Min (latency ` set ms)) (Max (latency ` set ms))
             @ table_head
             @ concat (map (table_row fd f2) ms)
             @ summary_rows f2
               (fdiv (fsum (map latency ms)) (real (length ms)))
               (Min (latency ` set ms)) (Max (latency ` set ms)))"
    unfolding generate_markdown_table_def Let_def d mn mx
    by (simp add: ne rows_loop_eq summary_block_def table_head_def table_rule_def
          summary_rows_def)
next
  show "generate_markdown_table fsum fdiv fd f3 f2 [] = Inr ''No measurements available.''"
    by (simp add: generate_markdown_table_def)
next
  show "py_truediv fdiv (fsum (map latency [])) (length (map latency [])) = Inl ZeroDivisionError"
    by (simp add: py_truediv_def)
qed

theorem report_statistics_witness:
  "[\<lparr>packet_num = 0, tx_time = 0, rx_time = 2, latency = 2\<rparr>,
    \<lparr>packet_num = 1, tx_time = 10, rx_time = 13, latency = 3\<rparr>] \<noteq> []
   \<and> generate_markdown_table example_fsum example_fdiv example_fd example_f3 example_f2
       [\<lparr>packet_num = 0, tx_time = 0, rx_time = 2, latency = 2\<rparr>,
        \<lparr>packet_num = 1, tx_time = 10, rx_time = 13, latency = 3\<rparr>] =
     Inr (''## UDP Latency Analysis Results'' @ nl @ nl @
          ''**Summary Statistics:**'' @ nl @
          ''- Total Packets: 2'' @ nl @
          ''- Average Latency: 2.500 ms'' @ nl @
          ''- Minimum Latency: 2.000 ms'' @ nl @
          ''- Maximum Latency: 3.000 ms'' @ nl @ nl @
          ''| Packet Number | TX Trigger Time (ms) | RX Trigger Time (ms) | Latency (ms) |'' @ nl @
          ''|---------------|---------------------|---------------------|-------------|'' @ nl @
          ''| 0 | 0.00 | 2.00 | 2.00 |'' @ nl @
          ''| 1 | 10.00 | 13.00 | 3.00 |'' @ nl @
          ''|---------------|---------------------|---------------------|-------------|'' @ nl @
          ''| **Average** | - | - | **2.50** |'' @ nl @
          ''| **Minimum** | - | - | **2.00** |'' @ nl @
          ''| **Maximum** | - | - | **3.00** |'' @ nl)
   \<and> generate_markdown_table example_fsum example_fdiv example_fd example_f3 example_f2
       [\<lparr>packet_num = 0, tx_time = - 9007199254740992, rx_time = 1,
         latency = 9007199254740992\<rparr>,
        \<lparr>packet_num = 1, tx_time = 0, rx_time = 1, latency = 1\<rparr>] =
     Inr (summary_block example_fd example_f3 2 4503599627370496 1 9007199254740992
          @ table_head
          @ table_row example_fd example_f2
              \<lparr>packet_num = 0, tx_time = - 9007199254740992, rx_time = 1,
               latency = 9007199254740992\<rparr>
          @ table_row example_fd example_f2
              \<lparr>packet_num = 1, tx_time = 0, rx_time = 1, latency = 1\<rparr>
          @ summary_rows example_f2 4503599627370496 1 9007199254740992)"
proof -
  let ?ms = "[\<lparr>packet_num = 0, tx_time = 0, rx_time = 2, latency = 2\<rparr>,
              \<lparr>packet_num = 1, tx_time = 10, rx_time = 13, latency = 3\<rparr>]"
  let ?big = "[\<lparr>packet_num = 0, tx_time = - 9007199254740992, rx_time = 1,
                latency = 9007199254740992\<rparr>,
               \<lparr>packet_num = 1, tx_time = 0, rx_time = 1, latency = 1\<rparr>]"
  have ne: "?ms \<noteq> []" "?big \<noteq> []" by simp_all
  from report_statistics [of ?ms example_fsum example_fdiv example_fd example_f3 example_f2] ne
  have "generate_markdown_table example_fsum example_fdiv example_fd example_f3 example_f2 ?ms =
        Inr (summary_block example_fd example_f3 (length ?ms)
               (example_fdiv (example_fsum (map latency ?ms)) (real (length ?ms)))
               (Min (latency ` set ?ms)) (Max (latency ` set ?ms))
             @ table_head
             @ concat (map (table_row example_fd example_f2) ?ms)
             @ summary_rows example_f2
               (example_fdiv (example_fsum (map latency ?ms)) (real (length ?ms)))
               (Min (latency ` set ?ms)) (Max (latency ` set ?ms)))"
    by blast
  then have a: "generate_markdown_table example_fsum example_fdiv example_fd example_f3 example_f2
       ?ms =
     Inr (''## UDP Latency Analysis Results'' @ nl @ nl @
          ''**Summary Statistics:**'' @ nl @
          ''- Total Packets: 2'' @ nl @
          ''- Average Latency: 2.500 ms'' @ nl @
          ''- Minimum Latency: 2.000 ms'' @ nl @
          ''- Maximum Latency: 3.000 ms'' @ nl @ nl @
          ''| Packet Number | TX Trigger Time (ms) | RX Trigger Time (ms) | Latency (ms) |'' @ nl @
          ''|---------------|---------------------|---------------------|-------------|'' @ nl @
          ''| 0 | 0.00 | 2.00 | 2.00 |'' @ nl @
          ''| 1 | 10.00 | 13.00 | 3.00 |'' @ nl @
          ''|---------------|---------------------|---------------------|-------------|'' @ nl @
          ''| **Average** | - | - | **2.50** |'' @ nl @
          ''| **Minimum** | - | - | **2.00** |'' @ nl @
          ''| **Maximum** | - | - | **3.00** |'' @ nl)"
    by (simp add: summary_block_def table_head_def table_rule_def summary_rows_def
          table_row_def example_fd_def example_f3_def example_f2_def example_fsum_def
          example_fdiv_def)
  from report_statistics [of ?big example_fsum example_fdiv example_fd example_f3 example_f2] ne
  have "generate_markdown_table example_fsum example_fdiv example_fd example_f3 example_f2 ?big =
        Inr (summary_block example_fd example_f3 (length ?big)
               (example_fdiv (example_fsum (map latency ?big)) (real (length ?big)))
               (Min (latency ` set ?big)) (Max (latency ` set ?big))
             @ table_head
             @ concat (map (table_row example_fd example_f2) ?big)
             @ summary_rows example_f2
               (example_fdiv (example_fsum (map latency ?big)) (real (length ?big)))
               (Min (latency ` set ?big)) (Max (latency ` set ?big)))"
    by blast
  moreover have "example_fdiv (example_fsum (map latency ?big)) (real (length ?big))
      = 4503599627370496"
    by (simp add: example_fsum_def example_fdiv_def)
  moreover have "Min (latency ` set ?big) = 1" "Max (latency ` set ?big) = 9007199254740992"
    by simp_all
  ultimately have b: "generate_markdown_table example_fsum example_fdiv example_fd example_f3
       example_f2 ?big =
     Inr (summary_block example_fd example_f3 2 4503599627370496 1 9007199254740992
          @ table_head
          @ table_row example_fd example_f2
              \<lparr>packet_num = 0, tx_time = - 9007199254740992, rx_time = 1,
               latency = 9007199254740992\<rparr>
          @ table_row example_fd example_f2
              \<lparr>packet_num = 1, tx_time = 0, rx_time = 1, latency = 1\<rparr>
          @ summary_rows example_f2 4503599627370496 1 9007199254740992)"
    by (simp add: numeral_2_eq_2)
  from ne a b show ?thesis by blast
qed

text \<open>
  Claim C6.  With no send triggers, or with send triggers but no receive triggers, the run
  prints the error line of that channel and exits with status 1; nothing of the matcher
  has been printed.  With both channels non-empty and no measurement matched, the run
  prints the matcher's lines, then the no-valid-measurements error line, a different
  message, and exits with status 1.  A report is returned only when both channels are
  non-empty and there is a measurement, and it is the report builder's text for the
  measurements; so in the three error cases there is none.
\<close>

theorem fatal_errors_precede_report:
  "(tx = [] \<longrightarrow>
      main_after_parse fsub fsum fdiv fd f3 f2 tx rx max_latency
        = ([No_tx_error], Inl (SystemExit 1)))
   \<and> (tx \<noteq> [] \<and> rx = [] \<longrightarrow>
      main_after_parse fsub fsum fdiv fd f3 f2 tx rx max_latency
        = ([No_rx_error], Inl (SystemExit 1)))
   \<and> (tx \<noteq> [] \<and> rx \<noteq> [] \<and> match_triggers_and_calculate_latency fsub tx rx max_latency = []
       \<longrightarrow>
      main_after_parse fsub fsum fdiv fd f3 f2 tx rx max_latency =
        (stdout (match_run fsub tx rx max_latency) @ [No_valid_error], Inl (SystemExit 1))
      \<and> Matching_line \<in> set (stdout (match_run fsub tx rx max_latency)))
   \<and> (\<forall>report. snd (main_after_parse fsub fsum fdiv fd f3 f2 tx rx max_latency) = Inr report
        \<longrightarrow>
        tx \<noteq> [] \<and> rx \<noteq> [] \<and> match_triggers_and_calculate_latency fsub tx rx max_latency \<noteq> [] \<and>
        generate_markdown_table fsum fdiv fd f3 f2
          (match_triggers_and_calculate_latency fsub tx rx max_latency) = Inr report)
   \<and> No_valid_error \<noteq> No_tx_error \<and> No_valid_error \<noteq> No_rx_error"
proof -
  have m: "Matching_line \<in> set (stdout (match_run fsub tx rx max_latency))"
    by (simp add: stdout_run stdout_loop)
  show ?thesis
    using m
    by (auto simp: main_after_parse_def match_triggers_and_calculate_latency_def Let_def
          split: sum.splits)
qed

theorem fatal_errors_precede_report_witness:
  "main_after_parse example_fsub example_fsum example_fdiv example_fd example_f3 example_f2
       [] [1] 100
     = ([No_tx_error], Inl (SystemExit 1))
   \<and> main_after_parse example_fsub example_fsum example_fdiv example_fd example_f3 example_f2
       [1] [] 100
     = ([No_rx_error], Inl (SystemExit 1))
   \<and> match_triggers_and_calculate_latency example_fsub [0] [50] 10 = []
   \<and> main_after_parse example_fsub example_fsum example_fdiv example_fd example_f3 example_f2
       [0] [50] 10
     = ([Matching_line, No_match_warning 0 0, Matched_line 0, No_valid_error],
        Inl (SystemExit 1))
   \<and> No_valid_error \<noteq> No_tx_error \<and> No_valid_error \<noteq> No_rx_error"
proof -
  have e: "match_triggers_and_calculate_latency example_fsub [0] [50] 10 = []"
    by (simp add: matcher_eval)
  have s: "stdout (match_run example_fsub [0] [50] 10)
             = [Matching_line, No_match_warning 0 0, Matched_line 0]"
    by (simp add: matcher_eval)
  from fatal_errors_precede_report
    [where tx = "[]" and rx = "[1]" and max_latency = 100 and fsub = example_fsub
       and fsum = example_fsum and fdiv = example_fdiv and fd = example_fd
       and ?f3.0 = example_f3 and ?f2.0 = example_f2]
  have a: "main_after_parse example_fsub example_fsum example_fdiv example_fd example_f3
      example_f2 [] [1] 100 = ([No_tx_error], Inl (SystemExit 1))" by blast
  from fatal_errors_precede_report
    [where tx = "[1]" and rx = "[]" and max_latency = 100 and fsub = example_fsub
       and fsum = example_fsum and fdiv = example_fdiv and fd = example_fd
       and ?f3.0 = example_f3 and ?f2.0 = example_f2]
  have b: "main_after_parse example_fsub example_fsum example_fdiv example_fd example_f3
      example_f2 [1] [] 100 = ([No_rx_error], Inl (SystemExit 1))" by blast
  from fatal_errors_precede_report
    [where tx = "[0]" and rx = "[50]" and max_latency = 10 and fsub = example_fsub
       and fsum = example_fsum and fdiv = example_fdiv and fd = example_fd
       and ?f3.0 = example_f3 and ?f2.0 = example_f2] e
  have c: "main_after_parse example_fsub example_fsum example_fdiv example_fd example_f3
      example_f2 [0] [50] 10 =
        (stdout (match_run example_fsub [0] [50] 10) @ [No_valid_error], Inl (SystemExit 1))"
    by blast
  from a b c e show ?thesis by (simp add: s)
qed

end
